theory Spec2Isabelle
  imports Complex_Main "HOL-Library.AList"
begin

section \<open>JavaScript values\<close>

text \<open>
  A JavaScript number is a double: a finite value, one of the two infinities, or NaN. A
  finite double is modelled by the rational that it stands for. The result of an addition
  and of reading a decimal text is the exact result rounded to the nearest double, a tie
  going to the double with the even significand, as IEEE 754 prescribes
  (\<open>roundToDouble\<close>): 53 significant bits for a binary exponent from \<open>-1022\<close> to \<open>1023\<close>,
  multiples of \<open>2^-1074\<close> below that, and an infinity when the rounded magnitude reaches
  \<open>2^1024\<close>. The two zeros are one value here. The program cannot tell them apart: it adds
  numbers to sums that start at \<open>+0\<close> (and \<open>+0 + -0\<close> is \<open>+0\<close>), compares them with
  \<^verbatim>\<open><=\<close> and \<^verbatim>\<open>>\<close>, and writes them into a tooltip, where both read \<open>0\<close>.
\<close>

datatype jsnum = Fin rat | PosInf | NegInf | NaN

text \<open>The number of binary digits of a natural number.\<close>

fun bitLength :: "nat \<Rightarrow> nat" where
  "bitLength n = (if n = 0 then 0 else bitLength (n div 2) + 1)"

definition pow2 :: "int \<Rightarrow> rat" where
  "pow2 e = (if 0 \<le> e then 2 ^ nat e else 1 / 2 ^ nat (- e))"

text \<open>The binary exponent of a positive rational \<open>r\<close>: the \<open>e\<close> with \<open>2^e \<le> r < 2^(e+1)\<close>.\<close>

definition binaryExponent :: "rat \<Rightarrow> int" where
  "binaryExponent r =
     (if 1 \<le> r then int (bitLength (nat \<lfloor>r\<rfloor>)) - 1
      else - int (bitLength (nat (\<lceil>1 / r\<rceil> - 1))))"

text \<open>The nearest integer, a tie going to the even one.\<close>

definition roundHalfEven :: "rat \<Rightarrow> int" where
  "roundHalfEven q =
     (let f = \<lfloor>q\<rfloor>; d = q - of_int f
      in if d < 1 / 2 then f else if 1 / 2 < d then f + 1 else if even f then f else f + 1)"

definition roundToDouble :: "rat \<Rightarrow> jsnum" where
  "roundToDouble r =
     (if r = 0 then Fin 0
      else (let a = \<bar>r\<bar>;
                e = max (binaryExponent a) (- 1022);
                ulp = pow2 (e - 52);
                v = of_int (roundHalfEven (a / ulp)) * ulp
            in if 2 ^ 1024 \<le> v then (if 0 < r then PosInf else NegInf)
               else Fin (if 0 < r then v else - v)))"

text \<open>\<^verbatim>\<open>a + b\<close> on numbers.\<close>

fun js_add :: "jsnum \<Rightarrow> jsnum \<Rightarrow> jsnum" where
  "js_add NaN _ = NaN"
| "js_add _ NaN = NaN"
| "js_add PosInf NegInf = NaN"
| "js_add NegInf PosInf = NaN"
| "js_add PosInf _ = PosInf"
| "js_add _ PosInf = PosInf"
| "js_add NegInf _ = NegInf"
| "js_add _ NegInf = NegInf"
| "js_add (Fin a) (Fin b) = roundToDouble (a + b)"

text \<open>\<^verbatim>\<open>a <= b\<close> and \<^verbatim>\<open>a > b\<close> on numbers: both are false when an operand is NaN.\<close>

fun js_le :: "jsnum \<Rightarrow> jsnum \<Rightarrow> bool" where
  "js_le NaN _ = False"
| "js_le _ NaN = False"
| "js_le NegInf _ = True"
| "js_le _ PosInf = True"
| "js_le PosInf _ = False"
| "js_le _ NegInf = False"
| "js_le (Fin a) (Fin b) = (a \<le> b)"

fun js_gt :: "jsnum \<Rightarrow> jsnum \<Rightarrow> bool" where
  "js_gt NaN _ = False"
| "js_gt _ NaN = False"
| "js_gt a b = (\<not> js_le a b)"

text \<open>\<^verbatim>\<open>Number.isFinite\<close> and \<^verbatim>\<open>Number.isNaN\<close>.\<close>

fun isFinite :: "jsnum \<Rightarrow> bool" where
  "isFinite (Fin _) = True"
| "isFinite _ = False"

fun isNaN :: "jsnum \<Rightarrow> bool" where
  "isNaN NaN = True"
| "isNaN _ = False"

text \<open>
  A dynamically typed value, as a decoded configuration block holds them.
\<close>

datatype jsval =
    JUndefined
  | JNull
  | JBool bool
  | JNum jsnum
  | JStr string
  | JArr "jsval list"
  | JObj "(string \<times> jsval) list"

section \<open>Strings\<close>

text \<open>
  A text is a sequence of code units, here the code units below 256 (the Latin-1 range),
  which the type of characters holds. The white space of \<^verbatim>\<open>\s\<close> and of \<^verbatim>\<open>trim\<close> in
  this range is tab, line feed, vertical tab, form feed, carriage return, space and the
  no-break space U+00A0; the line terminators that \<^verbatim>\<open>.\<close> refuses are line feed and
  carriage return; \<^verbatim>\<open>\d\<close> takes the ten ASCII digits; \<^verbatim>\<open>toLowerCase\<close> maps A-Z to
  a-z and the capital letters U+00C0 to U+00DE (without the multiplication sign U+00D7) to
  the letters 32 code units above them.
\<close>

definition isSpace :: "char \<Rightarrow> bool" where
  "isSpace c =
     (c \<in> set [CHR 0x09, CHR 0x0A, CHR 0x0B, CHR 0x0C, CHR 0x0D, CHR '' '', CHR 0xA0])"

definition isLineTerminator :: "char \<Rightarrow> bool" where
  "isLineTerminator c = (c \<in> set [CHR 0x0A, CHR 0x0D])"

definition isDigit :: "char \<Rightarrow> bool" where
  "isDigit c = (c \<in> set ''0123456789'')"

definition isNameChar :: "char \<Rightarrow> bool" where
  "isNameChar c = (c \<in> set ''abcdefghijklmnopqrstuvwxyz0123456789_'')"

definition lowerChar :: "char \<Rightarrow> char" where
  "lowerChar c =
     (case map_of (zip (''ABCDEFGHIJKLMNOPQRSTUVWXYZ''
                        @ [CHR 0xC0, CHR 0xC1, CHR 0xC2, CHR 0xC3, CHR 0xC4, CHR 0xC5, CHR 0xC6,
                           CHR 0xC7, CHR 0xC8, CHR 0xC9, CHR 0xCA, CHR 0xCB, CHR 0xCC, CHR 0xCD,
                           CHR 0xCE, CHR 0xCF, CHR 0xD0, CHR 0xD1, CHR 0xD2, CHR 0xD3, CHR 0xD4,
                           CHR 0xD5, CHR 0xD6, CHR 0xD8, CHR 0xD9, CHR 0xDA, CHR 0xDB, CHR 0xDC,
                           CHR 0xDD, CHR 0xDE])
                       (''abcdefghijklmnopqrstuvwxyz''
                        @ [CHR 0xE0, CHR 0xE1, CHR 0xE2, CHR 0xE3, CHR 0xE4, CHR 0xE5, CHR 0xE6,
                           CHR 0xE7, CHR 0xE8, CHR 0xE9, CHR 0xEA, CHR 0xEB, CHR 0xEC, CHR 0xED,
                           CHR 0xEE, CHR 0xEF, CHR 0xF0, CHR 0xF1, CHR 0xF2, CHR 0xF3, CHR 0xF4,
                           CHR 0xF5, CHR 0xF6, CHR 0xF8, CHR 0xF9, CHR 0xFA, CHR 0xFB, CHR 0xFC,
                           CHR 0xFD, CHR 0xFE])) c of
        Some l \<Rightarrow> l
      | None \<Rightarrow> c)"

definition toLowerCase :: "string \<Rightarrow> string" where
  "toLowerCase s = map lowerChar s"

definition trim :: "string \<Rightarrow> string" where
  "trim s = rev (dropWhile isSpace (rev (dropWhile isSpace s)))"

definition startsWith :: "string \<Rightarrow> string \<Rightarrow> bool" where
  "startsWith s p = (take (length p) s = p)"

section \<open>The habit text parser (parser.ts)\<close>

subsection \<open>Accumulators and their resolution\<close>

record DateAccumulator =
  numericSum :: jsnum
  hasNumeric :: bool
  inlineTrue :: bool
  inlineFalse :: bool
  checklistTrue :: bool
  checklistFalse :: bool

datatype ResolvedHabitValue = Numeric jsnum | Boolean bool

text \<open>
  A \<^verbatim>\<open>Map\<close> is an association list in insertion order with distinct keys:
  \<^verbatim>\<open>get\<close> is \<^const>\<open>map_of\<close>, \<^verbatim>\<open>set\<close> is \<^const>\<open>AList.update\<close>
  (in place for a key that is there, at the end for a new one).
\<close>

type_synonym ('k, 'v) jsmap = "('k \<times> 'v) list"

definition resolveBoolean :: "DateAccumulator \<Rightarrow> bool option" where
  "resolveBoolean acc =
     (if inlineTrue acc then Some True
      else if checklistTrue acc then Some True
      else if checklistFalse acc then Some False
      else if inlineFalse acc then Some False
      else None)"

text \<open>The body of the inner loop of \<^verbatim>\<open>resolveAccumulators\<close>, for one habit of one date.\<close>

definition resolveHabit ::
  "(string, ResolvedHabitValue) jsmap \<Rightarrow> string \<times> DateAccumulator \<Rightarrow>
   (string, ResolvedHabitValue) jsmap" where
  "resolveHabit resolvedByHabit entry =
     (case entry of (habit, accumulator) \<Rightarrow>
        if hasNumeric accumulator
        then AList.update habit (Numeric (numericSum accumulator)) resolvedByHabit
        else (case resolveBoolean accumulator of
                Some b \<Rightarrow> AList.update habit (Boolean b) resolvedByHabit
              | None \<Rightarrow> resolvedByHabit))"

definition resolveDate ::
  "(string, (string, ResolvedHabitValue) jsmap) jsmap \<Rightarrow>
   string \<times> (string, DateAccumulator) jsmap \<Rightarrow>
   (string, (string, ResolvedHabitValue) jsmap) jsmap" where
  "resolveDate output entry =
     (case entry of (date, habits) \<Rightarrow>
        (let resolvedByHabit = foldl resolveHabit [] habits
         in if length resolvedByHabit > 0 then AList.update date resolvedByHabit output
            else output))"

definition resolveAccumulators ::
  "(string, (string, DateAccumulator) jsmap) jsmap \<Rightarrow>
   (string, (string, ResolvedHabitValue) jsmap) jsmap" where
  "resolveAccumulators accumulators = foldl resolveDate [] accumulators"

text \<open>The value of a habit on a date in a two-level map, if there is one.\<close>

definition lookup2 :: "('a, ('b, 'v) jsmap) jsmap \<Rightarrow> 'a \<Rightarrow> 'b \<Rightarrow> 'v option" where
  "lookup2 m a b = (case map_of m a of None \<Rightarrow> None | Some inner \<Rightarrow> map_of inner b)"

text \<open>What one accumulator resolves to: the two branches of that loop body.\<close>

definition resolveOne :: "DateAccumulator \<Rightarrow> ResolvedHabitValue option" where
  "resolveOne acc = (if hasNumeric acc then Some (Numeric (numericSum acc))
     else map_option Boolean (resolveBoolean acc))"

section \<open>Dates\<close>

subsection \<open>The Date object\<close>

text \<open>
  A \<^verbatim>\<open>Date\<close> is its time value: the milliseconds since 1970-01-01T00:00 UTC. The
  constructor \<^verbatim>\<open>new Date(year, monthIndex, day)\<close> and the getters
  \<^verbatim>\<open>getFullYear\<close>, \<^verbatim>\<open>getMonth\<close>, \<^verbatim>\<open>getDate\<close> work in the local time of the
  host, \<^verbatim>\<open>getTime\<close> gives the time value itself. The host's time zone is a parameter:
  its offset from UTC in milliseconds, as a function of a UTC time value and as a function
  of a local time value. The day arithmetic is that of the language standard
  (\<^verbatim>\<open>Day\<close>, \<^verbatim>\<open>DayFromYear\<close>, \<^verbatim>\<open>YearFromTime\<close>, \<^verbatim>\<open>MonthFromTime\<close>,
  \<^verbatim>\<open>DateFromTime\<close>, \<^verbatim>\<open>MakeDay\<close>).
\<close>

type_synonym jsdate = int

record zone =
  tzaOfUTC :: "int \<Rightarrow> int"
  tzaOfLocal :: "int \<Rightarrow> int"

definition msPerDay :: int where
  "msPerDay = 86400000"

definition msPerHour :: int where
  "msPerHour = 3600000"

definition DayFromYear :: "int \<Rightarrow> int" where
  "DayFromYear y =
     365 * (y - 1970) + (y - 1969) div 4 - (y - 1901) div 100 + (y - 1601) div 400"

definition InLeapYear :: "int \<Rightarrow> bool" where
  "InLeapYear y = (y mod 4 = 0 \<and> (y mod 100 \<noteq> 0 \<or> y mod 400 = 0))"

lemma DayFromYear_less: "DayFromYear y < DayFromYear (y + 1)"
proof -
  have a: "(y - 1969) div 4 \<le> (y + 1 - 1969) div 4"
    by (rule zdiv_mono1) simp_all
  have "(y + 1 - 1901) div 100 \<le> (y - 1901 + 100) div 100"
    by (rule zdiv_mono1) simp_all
  then have b: "(y + 1 - 1901) div 100 \<le> (y - 1901) div 100 + 1"
    by simp
  have c: "(y - 1601) div 400 \<le> (y + 1 - 1601) div 400"
    by (rule zdiv_mono1) simp_all
  have "\<And>p p' q q' r r' :: int. p \<le> p' \<Longrightarrow> q' \<le> q + 1 \<Longrightarrow> r \<le> r' \<Longrightarrow>
          365 * (y - 1970) + p - q + r < 365 * (y + 1 - 1970) + p' - q' + r'"
    by simp
  from this[OF a b c] show ?thesis
    unfolding DayFromYear_def .
qed

text \<open>The year of a day number: the last year that starts on or before it.\<close>

function yearSearch :: "int \<Rightarrow> int \<Rightarrow> int" where
  "yearSearch day y = (if DayFromYear (y + 1) \<le> day then yearSearch day (y + 1) else y)"
  by pat_completeness auto
termination
proof (relation "measure (\<lambda>(day, y). nat (day - DayFromYear (y + 1) + 1))")
  show "wf (measure (\<lambda>(day, y). nat (day - DayFromYear (y + 1) + 1)))" by simp
next
  fix day y :: int
  assume "DayFromYear (y + 1) \<le> day"
  moreover have "DayFromYear (y + 1) < DayFromYear (y + 1 + 1)" by (rule DayFromYear_less)
  ultimately show
    "((day, y + 1), (day, y)) \<in> measure (\<lambda>(day, y). nat (day - DayFromYear (y + 1) + 1))"
    by simp
qed

definition YearFromDay :: "int \<Rightarrow> int" where
  "YearFromDay day =
     yearSearch day (1970 + (if 0 \<le> day then day div 366 else day div 365))"

definition monthStart :: "int \<Rightarrow> bool \<Rightarrow> int" where
  "monthStart m leap =
     [0, 31, 59, 90, 120, 151, 181, 212, 243, 273, 304, 334] ! nat m
       + (if leap \<and> 2 \<le> m then 1 else 0)"

definition Day :: "int \<Rightarrow> int" where
  "Day t = t div msPerDay"

definition YearFromTime :: "int \<Rightarrow> int" where
  "YearFromTime t = YearFromDay (Day t)"

definition DayWithinYear :: "int \<Rightarrow> int" where
  "DayWithinYear t = Day t - DayFromYear (YearFromTime t)"

text \<open>The month (0 to 11) of a day of a year, counted from 0, and the day of that month.\<close>

definition monthOfDay :: "int \<Rightarrow> bool \<Rightarrow> int" where
  "monthOfDay dayInYear leap =
     int (length (filter (\<lambda>m. monthStart m leap \<le> dayInYear)
            [1, 2, 3, 4, 5, 6, 7, 8, 9, 10, 11]))"

definition MonthFromTime :: "int \<Rightarrow> int" where
  "MonthFromTime t =
     (let y = YearFromTime t in monthOfDay (Day t - DayFromYear y) (InLeapYear y))"

definition DateFromTime :: "int \<Rightarrow> int" where
  "DateFromTime t =
     (let y = YearFromTime t; leap = InLeapYear y; dayInYear = Day t - DayFromYear y
      in dayInYear - monthStart (monthOfDay dayInYear leap) leap + 1)"

definition MakeDay :: "int \<Rightarrow> int \<Rightarrow> int \<Rightarrow> int" where
  "MakeDay year month date =
     (let ym = year + month div 12; mn = month mod 12
      in DayFromYear ym + monthStart mn (InLeapYear ym) + date - 1)"

text \<open>
  \<^verbatim>\<open>new Date(year, monthIndex, day)\<close> for integer arguments: a year from 0 to 99 means
  1900 + year; the local time is turned into UTC with the zone's offset at that local time.
  (The time values of this program stay far inside the range of valid time values, so
  none is NaN.)
\<close>

definition newDate :: "zone \<Rightarrow> int \<Rightarrow> int \<Rightarrow> int \<Rightarrow> jsdate" where
  "newDate tz year monthIndex day =
     (let yr = (if 0 \<le> year \<and> year \<le> 99 then 1900 + year else year);
          local = MakeDay yr monthIndex day * msPerDay
      in local - tzaOfLocal tz local)"

definition localTime :: "zone \<Rightarrow> jsdate \<Rightarrow> int" where
  "localTime tz t = t + tzaOfUTC tz t"

definition getFullYear :: "zone \<Rightarrow> jsdate \<Rightarrow> int" where
  "getFullYear tz t = YearFromTime (localTime tz t)"

definition getMonth :: "zone \<Rightarrow> jsdate \<Rightarrow> int" where
  "getMonth tz t = MonthFromTime (localTime tz t)"

definition getDate :: "zone \<Rightarrow> jsdate \<Rightarrow> int" where
  "getDate tz t = DateFromTime (localTime tz t)"

definition getTime :: "jsdate \<Rightarrow> int" where
  "getTime t = t"

text \<open>
  Two hosts: one on UTC, and one on the rules of America/New_York for 2024 (UTC-5, and
  UTC-4 from 2024-03-10 02:00 to 2024-11-03 02:00 local time). A local time that the
  change to summer time skips is read with the offset before the change, and one that the
  change back repeats with the offset of summer time.
\<close>

definition utcZone :: zone where
  "utcZone = \<lparr>tzaOfUTC = (\<lambda>t. 0), tzaOfLocal = (\<lambda>t. 0)\<rparr>"

definition newYork2024 :: zone where
  "newYork2024 =
     \<lparr>tzaOfUTC = (\<lambda>t. if MakeDay 2024 2 10 * msPerDay + 7 * msPerHour \<le> t
                          \<and> t < MakeDay 2024 10 3 * msPerDay + 6 * msPerHour
                       then - 4 * msPerHour else - 5 * msPerHour),
      tzaOfLocal = (\<lambda>t. if MakeDay 2024 2 10 * msPerDay + 3 * msPerHour \<le> t
                            \<and> t < MakeDay 2024 10 3 * msPerDay + 2 * msPerHour
                         then - 4 * msPerHour else - 5 * msPerHour)\<rparr>"

subsection \<open>Decimal digits\<close>

definition digitValue :: "char \<Rightarrow> nat" where
  "digitValue c = of_char c - of_char CHR ''0''"

definition digitChar :: "nat \<Rightarrow> char" where
  "digitChar n = ''0123456789'' ! n"

text \<open>\<^verbatim>\<open>Number(text)\<close> for a text of decimal digits.\<close>

definition digitsValue :: "string \<Rightarrow> nat" where
  "digitsValue s = foldl (\<lambda>a c. 10 * a + digitValue c) 0 s"

text \<open>The text of an integer, as \<^verbatim>\<open>String(n)\<close> and a template literal give it.\<close>

fun showNat :: "nat \<Rightarrow> string" where
  "showNat n = (if n < 10 then [digitChar n] else showNat (n div 10) @ [digitChar (n mod 10)])"

definition showInt :: "int \<Rightarrow> string" where
  "showInt i = (if i < 0 then CHR ''-'' # showNat (nat (- i)) else showNat (nat i))"

text \<open>\<^verbatim>\<open>text.padStart(2, "0")\<close>.\<close>

definition padStart2 :: "string \<Rightarrow> string" where
  "padStart2 s = replicate (2 - length s) CHR ''0'' @ s"

text \<open>\<^verbatim>\<open>text.split(sep)\<close> for a separator of one character.\<close>

fun splitOn :: "char \<Rightarrow> string \<Rightarrow> string list" where
  "splitOn sep [] = [[]]"
| "splitOn sep (c # cs) =
     (if c = sep then [] # splitOn sep cs
      else (case splitOn sep cs of p # ps \<Rightarrow> (c # p) # ps | [] \<Rightarrow> [[c]]))"

subsection \<open>ISO dates (normalizeIsoDate in parser.ts; toIsoDate, parseIsoDate, addDays)\<close>

text \<open>
  Four digits, a separator, two digits, the separator, two digits and nothing else: with
  \<open>-\<close> the test \<^verbatim>\<open>/^\d{4}-\d{2}-\d{2}$/\<close>, with \<open>.\<close> the date of a heading or title.
\<close>

definition isDateToken :: "char \<Rightarrow> string \<Rightarrow> bool" where
  "isDateToken sep s =
     (length s = 10 \<and> list_all isDigit (take 4 s) \<and> s ! 4 = sep
      \<and> list_all isDigit (take 2 (drop 5 s)) \<and> s ! 7 = sep
      \<and> list_all isDigit (drop 8 s))"

definition normalizeIsoDate :: "zone \<Rightarrow> string \<Rightarrow> string option" where
  "normalizeIsoDate tz v =
     (if \<not> isDateToken CHR ''-'' v then None
      else (case splitOn CHR ''-'' v of
              [yearText, monthText, dayText] \<Rightarrow>
                (let year = int (digitsValue yearText);
                     month = int (digitsValue monthText);
                     day = int (digitsValue dayText);
                     date = newDate tz year (month - 1) day
                 in if getFullYear tz date \<noteq> year \<or> getMonth tz date \<noteq> month - 1
                       \<or> getDate tz date \<noteq> day
                    then None
                    else Some (yearText @ ''-'' @ monthText @ ''-'' @ dayText))
            | _ \<Rightarrow> None))"

definition toIsoDate :: "zone \<Rightarrow> jsdate \<Rightarrow> string" where
  "toIsoDate tz date =
     showInt (getFullYear tz date) @ ''-'' @ padStart2 (showInt (getMonth tz date + 1))
       @ ''-'' @ padStart2 (showInt (getDate tz date))"

definition parseIsoDate :: "zone \<Rightarrow> string \<Rightarrow> jsdate option" where
  "parseIsoDate tz date =
     (case normalizeIsoDate tz date of
        None \<Rightarrow> None
      | Some normalized \<Rightarrow>
          (case map (\<lambda>part. int (digitsValue part)) (splitOn CHR ''-'' normalized) of
             [year, month, day] \<Rightarrow> Some (newDate tz year (month - 1) day)
           | _ \<Rightarrow> None))"

definition addDays :: "zone \<Rightarrow> jsdate \<Rightarrow> int \<Rightarrow> jsdate" where
  "addDays tz date days =
     newDate tz (getFullYear tz date) (getMonth tz date) (getDate tz date + days)"

definition dayDiffInclusive :: "zone \<Rightarrow> jsdate \<Rightarrow> jsdate \<Rightarrow> int" where
  "dayDiffInclusive tz start end =
     (let startMidnight =
            getTime (newDate tz (getFullYear tz start) (getMonth tz start) (getDate tz start));
          endMidnight =
            getTime (newDate tz (getFullYear tz end) (getMonth tz end) (getDate tz end))
      in (endMidnight - startMidnight) div msPerDay + 1)"

text \<open>The loop of \<^verbatim>\<open>enumerateDates\<close>, from counter \<open>i\<close> on.\<close>

function enumerateLoop :: "zone \<Rightarrow> jsdate \<Rightarrow> int \<Rightarrow> int \<Rightarrow> string list" where
  "enumerateLoop tz start i totalDays =
     (if i < totalDays then toIsoDate tz (addDays tz start i) # enumerateLoop tz start (i + 1) totalDays
      else [])"
  by pat_completeness auto
termination
  by (relation "measure (\<lambda>(tz, start, i, totalDays). nat (totalDays - i))") auto

definition enumerateDates :: "zone \<Rightarrow> string \<Rightarrow> string \<Rightarrow> string list" where
  "enumerateDates tz startIso endIso =
     (case (parseIsoDate tz startIso, parseIsoDate tz endIso) of
        (Some start, Some end) \<Rightarrow>
          if getTime start > getTime end then []
          else enumerateLoop tz start 0 (dayDiffInclusive tz start end)
      | _ \<Rightarrow> [])"

section \<open>Token extraction (parser.ts)\<close>

subsection \<open>The accumulator of a date and a habit\<close>

type_synonym accumulators = "(string, (string, DateAccumulator) jsmap) jsmap"

definition newAccumulator :: DateAccumulator where
  "newAccumulator =
     \<lparr>numericSum = Fin 0, hasNumeric = False, inlineTrue = False, inlineFalse = False,
      checklistTrue = False, checklistFalse = False\<rparr>"

text \<open>
  \<^verbatim>\<open>getAccumulator\<close> returns the accumulator of the date and habit, which it creates
  when there is none; the map with the entries it made comes back with it.
\<close>

definition getAccumulator ::
  "accumulators \<Rightarrow> string \<Rightarrow> string \<Rightarrow> accumulators \<times> DateAccumulator" where
  "getAccumulator accs date habit =
     (let normalizedHabit = trim habit;
          byHabit = (case map_of accs date of Some m \<Rightarrow> m | None \<Rightarrow> [])
      in case map_of byHabit normalizedHabit of
           Some existing \<Rightarrow> (AList.update date byHabit accs, existing)
         | None \<Rightarrow>
             (AList.update date (AList.update normalizedHabit newAccumulator byHabit) accs,
              newAccumulator))"

text \<open>
  The accumulator that \<^verbatim>\<open>getAccumulator\<close> returns is an object of the map: an assignment
  to one of its fields changes the entry of the map.
\<close>

definition storeAccumulator ::
  "accumulators \<Rightarrow> string \<Rightarrow> string \<Rightarrow> DateAccumulator \<Rightarrow> accumulators" where
  "storeAccumulator accs date habit bucket =
     (let byHabit = (case map_of accs date of Some m \<Rightarrow> m | None \<Rightarrow> [])
      in AList.update date (AList.update (trim habit) bucket byHabit) accs)"

subsection \<open>Inline tokens\<close>

text \<open>
  \<^verbatim>\<open>Number(text)\<close> for the texts that the inline pattern lets through: an optional minus
  sign, digits, and optionally a point and digits. The result is the double nearest to
  the decimal value that the text denotes, as the engines compute it. For every other
  text the result here is NaN.
\<close>

definition toNumber :: "string \<Rightarrow> jsnum" where
  "toNumber s =
     (let negative = (s \<noteq> [] \<and> hd s = CHR ''-'');
          body = (if negative then tl s else s);
          intPart = takeWhile isDigit body;
          rest = dropWhile isDigit body;
          sign = (if negative then - 1 else 1)
      in if intPart = [] then NaN
         else if rest = [] then roundToDouble (sign * of_nat (digitsValue intPart))
         else if hd rest = CHR ''.'' \<and> tl rest \<noteq> [] \<and> list_all isDigit (tl rest)
         then roundToDouble (sign * (of_nat (digitsValue intPart)
                 + of_nat (digitsValue (tl rest)) / 10 ^ length (tl rest)))
         else NaN)"

text \<open>
  The alternatives \<^verbatim>\<open>(true|false|yes|no|-?\d+(?:\.\d+)?)\<close> at the start of a text, in
  that order: the text matched, if one matches.
\<close>

definition matchInlineValue :: "string \<Rightarrow> string option" where
  "matchInlineValue r =
     (if startsWith r ''true'' then Some ''true''
      else if startsWith r ''false'' then Some ''false''
      else if startsWith r ''yes'' then Some ''yes''
      else if startsWith r ''no'' then Some ''no''
      else (let sign = (if startsWith r ''-'' then ''-'' else '''');
                r1 = drop (length sign) r;
                digits = takeWhile isDigit r1;
                r2 = dropWhile isDigit r1;
                fraction = takeWhile isDigit (drop 1 r2)
            in if digits = [] then None
               else if startsWith r2 ''.'' \<and> fraction \<noteq> []
               then Some (sign @ digits @ ''.'' @ fraction)
               else Some (sign @ digits)))"

text \<open>
  \<^verbatim>\<open>/habit-([a-z0-9_]+)::(true|false|yes|no|-?\d+(?:\.\d+)?)/\<close> at the start of a text:
  the two groups and the length of the match.
\<close>

definition matchInlineAt :: "string \<Rightarrow> (string \<times> string \<times> nat) option" where
  "matchInlineAt s =
     (if \<not> startsWith s ''habit-'' then None
      else (let name = takeWhile isNameChar (drop 6 s);
                r = dropWhile isNameChar (drop 6 s)
            in if name = [] \<or> \<not> startsWith r ''::'' then None
               else (case matchInlineValue (drop 2 r) of
                       None \<Rightarrow> None
                     | Some v \<Rightarrow> Some (name, v, 6 + length name + 2 + length v))))"

text \<open>
  \<^verbatim>\<open>line.matchAll(INLINE_HABIT_PATTERN)\<close>: the matches from left to right, each search
  starting where the last match ended. The first argument counts the characters of the
  last match that are still to be passed.
\<close>

fun scanInline :: "nat \<Rightarrow> string \<Rightarrow> (string \<times> string) list" where
  "scanInline k [] = []"
| "scanInline (Suc k) (c # cs) = scanInline k cs"
| "scanInline 0 (c # cs) =
     (case matchInlineAt (c # cs) of
        Some (habit, v, n) \<Rightarrow> (habit, v) # scanInline (n - 1) cs
      | None \<Rightarrow> scanInline 0 cs)"

definition inlineMatches :: "string \<Rightarrow> (string \<times> string) list" where
  "inlineMatches line = scanInline 0 line"

text \<open>The body of the loop of \<^verbatim>\<open>extractInlineTokens\<close>, for one match.\<close>

definition inlineToken :: "string \<Rightarrow> accumulators \<Rightarrow> string \<times> string \<Rightarrow> accumulators" where
  "inlineToken activeDate accs m =
     (let habit = trim (fst m);
          rawValue = toLowerCase (trim (snd m))
      in if length habit = 0 then accs
         else (case getAccumulator accs activeDate habit of
                 (accs1, bucket) \<Rightarrow>
                   if rawValue = ''true'' \<or> rawValue = ''yes''
                   then storeAccumulator accs1 activeDate habit (bucket\<lparr>inlineTrue := True\<rparr>)
                   else if rawValue = ''false'' \<or> rawValue = ''no''
                   then storeAccumulator accs1 activeDate habit (bucket\<lparr>inlineFalse := True\<rparr>)
                   else (let numeric = toNumber rawValue
                         in if isFinite numeric
                            then storeAccumulator accs1 activeDate habit
                                   (bucket\<lparr>hasNumeric := True,
                                      numericSum := js_add (numericSum bucket) numeric\<rparr>)
                            else accs1)))"

definition extractInlineTokens :: "string \<Rightarrow> string \<Rightarrow> accumulators \<Rightarrow> accumulators" where
  "extractInlineTokens line activeDate accs =
     foldl (inlineToken activeDate) accs (inlineMatches line)"

subsection \<open>Checklist tokens\<close>

text \<open>
  \<^verbatim>\<open>/^\s*[-*]\s+\[( |x|X)\]\s+(.+)$/\<close> on a line: the two groups. After the closing
  bracket come white space and then at least one character that is no line terminator, up
  to the end of the line; the white space gives characters back to the last group only
  when nothing else is left for it.
\<close>

definition matchChecklist :: "string \<Rightarrow> (string \<times> string) option" where
  "matchChecklist line =
     (let r0 = dropWhile isSpace line;
          r1 = dropWhile isSpace (drop 1 r0);
          r2 = drop 3 r1;
          text = dropWhile isSpace r2
      in if \<not> (startsWith r0 ''-'' \<or> startsWith r0 ''*'') then None
         else if takeWhile isSpace (drop 1 r0) = [] then None
         else if \<not> (startsWith r1 ''[ ]'' \<or> startsWith r1 ''[x]'' \<or> startsWith r1 ''[X]'')
         then None
         else if takeWhile isSpace r2 = [] then None
         else if text \<noteq> [] then
           (if list_ex isLineTerminator text then None else Some (take 1 (drop 1 r1), text))
         else if 2 \<le> length r2 \<and> \<not> isLineTerminator (last r2)
         then Some (take 1 (drop 1 r1), [last r2])
         else None)"

text \<open>\<^verbatim>\<open>/habit-([a-z0-9_]+)/\<close> at the start of a text: the group and the length of the match.\<close>

definition matchChecklistHabitAt :: "string \<Rightarrow> (string \<times> nat) option" where
  "matchChecklistHabitAt s =
     (let name = takeWhile isNameChar (drop 6 s)
      in if startsWith s ''habit-'' \<and> name \<noteq> [] then Some (name, 6 + length name) else None)"

fun scanChecklist :: "nat \<Rightarrow> string \<Rightarrow> string list" where
  "scanChecklist k [] = []"
| "scanChecklist (Suc k) (c # cs) = scanChecklist k cs"
| "scanChecklist 0 (c # cs) =
     (case matchChecklistHabitAt (c # cs) of
        Some (habit, n) \<Rightarrow> habit # scanChecklist (n - 1) cs
      | None \<Rightarrow> scanChecklist 0 cs)"

definition checklistHabitMatches :: "string \<Rightarrow> string list" where
  "checklistHabitMatches text = scanChecklist 0 text"

text \<open>The body of the loop of \<^verbatim>\<open>extractChecklistTokens\<close>, for one match.\<close>

definition checklistToken :: "bool \<Rightarrow> string \<Rightarrow> accumulators \<Rightarrow> string \<Rightarrow> accumulators" where
  "checklistToken checked activeDate accs habitMatch =
     (let habit = trim habitMatch
      in if length habit = 0 then accs
         else (case getAccumulator accs activeDate habit of
                 (accs1, bucket) \<Rightarrow>
                   if checked
                   then storeAccumulator accs1 activeDate habit (bucket\<lparr>checklistTrue := True\<rparr>)
                   else storeAccumulator accs1 activeDate habit
                          (bucket\<lparr>checklistFalse := True\<rparr>)))"

definition extractChecklistTokens :: "string \<Rightarrow> string \<Rightarrow> accumulators \<Rightarrow> accumulators" where
  "extractChecklistTokens line activeDate accs =
     (case matchChecklist line of
        None \<Rightarrow> accs
      | Some (mark, text) \<Rightarrow>
          foldl (checklistToken (toLowerCase mark = ''x'') activeDate) accs
            (checklistHabitMatches text))"

subsection \<open>Date headings and the pass over the lines\<close>

text \<open>
  \<^verbatim>\<open>/^\s{0,3}#{1,6}\s+(\d{4}\.\d{2}\.\d{2})\s*$/\<close> on a line: the group.
\<close>

definition matchDateHeading :: "string \<Rightarrow> string option" where
  "matchDateHeading line =
     (let indent = takeWhile isSpace line;
          r0 = dropWhile isSpace line;
          marks = takeWhile (\<lambda>c. c = CHR ''#'') r0;
          r1 = dropWhile (\<lambda>c. c = CHR ''#'') r0;
          r2 = dropWhile isSpace r1
      in if length indent \<le> 3 \<and> 1 \<le> length marks \<and> length marks \<le> 6
            \<and> takeWhile isSpace r1 \<noteq> [] \<and> isDateToken CHR ''.'' (take 10 r2)
            \<and> list_all isSpace (drop 10 r2)
         then Some (take 10 r2) else None)"

definition headingToIso :: "string \<Rightarrow> string" where
  "headingToIso heading = map (\<lambda>c. if c = CHR ''.'' then CHR ''-'' else c) heading"

definition parseDateHeading :: "zone \<Rightarrow> string \<Rightarrow> string option" where
  "parseDateHeading tz line =
     (case matchDateHeading line of
        None \<Rightarrow> None
      | Some m \<Rightarrow> normalizeIsoDate tz (headingToIso m))"

text \<open>\<^verbatim>\<open>content.split(/\r?\n/)\<close>; the first argument is the line read so far, reversed.\<close>

fun splitLines :: "string \<Rightarrow> string \<Rightarrow> string list" where
  "splitLines cur [] = [rev cur]"
| "splitLines cur [c] = (if c = CHR 0x0A then [rev cur, []] else [rev (c # cur)])"
| "splitLines cur (c # d # cs) =
     (if c = CHR 0x0A then rev cur # splitLines [] (d # cs)
      else if c = CHR 0x0D \<and> d = CHR 0x0A then rev cur # splitLines [] cs
      else splitLines (c # cur) (d # cs))"

record TFile =
  path :: string
  basename :: string
  mtime :: int

record ParsedFileData =
  pfile :: TFile
  valuesByDateHabit :: "(string, (string, ResolvedHabitValue) jsmap) jsmap"
  headingLinesByDate :: "(string, nat list) jsmap"

text \<open>The state of the loop of \<^verbatim>\<open>parseMarkdownHabits\<close>, and its body for the line at an index.\<close>

record parseState =
  accumulatorsOf :: accumulators
  headingLines :: "(string, nat list) jsmap"
  activeDate :: "string option"

definition parseLine :: "zone \<Rightarrow> parseState \<Rightarrow> nat \<times> string \<Rightarrow> parseState" where
  "parseLine tz st indexed =
     (case indexed of (index, line) \<Rightarrow>
        (case parseDateHeading tz line of
           Some heading \<Rightarrow>
             (let entries = (case map_of (headingLines st) heading of Some e \<Rightarrow> e | None \<Rightarrow> [])
              in st\<lparr>activeDate := Some heading,
                    headingLines := AList.update heading (entries @ [index + 1]) (headingLines st)\<rparr>)
         | None \<Rightarrow>
             (case activeDate st of
                None \<Rightarrow> st
              | Some date \<Rightarrow>
                  st\<lparr>accumulatorsOf :=
                        extractChecklistTokens line date
                          (extractInlineTokens line date (accumulatorsOf st))\<rparr>)))"

definition parseMarkdownHabits :: "zone \<Rightarrow> TFile \<Rightarrow> string \<Rightarrow> ParsedFileData" where
  "parseMarkdownHabits tz f content =
     (let lines = splitLines [] content;
          st = foldl (parseLine tz)
                 \<lparr>accumulatorsOf = [], headingLines = [], activeDate = None\<rparr>
                 (zip [0 ..< length lines] lines)
      in \<lparr>pfile = f, valuesByDateHabit = resolveAccumulators (accumulatorsOf st),
          headingLinesByDate = headingLines st\<rparr>)"

subsection \<open>What a line does to one accumulator\<close>

text \<open>
  The classes of the value of an inline token, after \<^verbatim>\<open>trim\<close> and
  \<^verbatim>\<open>toLowerCase\<close>, what a token of each class does to an accumulator, and the
  accumulator of a date and habit in the map (a new one when the map has none).
\<close>

datatype inlineKind = InlineTrue | InlineFalse | InlineNumber jsnum | InlineIgnored

definition classifyInline :: "string \<Rightarrow> inlineKind" where
  "classifyInline raw =
     (let v = toLowerCase (trim raw)
      in if v = ''true'' \<or> v = ''yes'' then InlineTrue
         else if v = ''false'' \<or> v = ''no'' then InlineFalse
         else if isFinite (toNumber v) then InlineNumber (toNumber v)
         else InlineIgnored)"

fun applyInline :: "DateAccumulator \<Rightarrow> inlineKind \<Rightarrow> DateAccumulator" where
  "applyInline a InlineTrue = a\<lparr>inlineTrue := True\<rparr>"
| "applyInline a InlineFalse = a\<lparr>inlineFalse := True\<rparr>"
| "applyInline a (InlineNumber x) = a\<lparr>hasNumeric := True, numericSum := js_add (numericSum a) x\<rparr>"
| "applyInline a InlineIgnored = a"

definition accOf :: "accumulators \<Rightarrow> string \<Rightarrow> string \<Rightarrow> DateAccumulator" where
  "accOf accs date habit =
     (case lookup2 accs date habit of Some a \<Rightarrow> a | None \<Rightarrow> newAccumulator)"

fun numbersOf :: "inlineKind list \<Rightarrow> jsnum list" where
  "numbersOf [] = []"
| "numbersOf (InlineNumber x # ks) = x # numbersOf ks"
| "numbersOf (k # ks) = numbersOf ks"

section \<open>The scanner (scanner.ts)\<close>

subsection \<open>The parse cache\<close>

text \<open>
  The vault of the host: its markdown files, the content of each, and the files that were
  read from it, in the order of the reads (\<^verbatim>\<open>cachedRead\<close> appends to it). The scanner
  holds the vault and a cache from paths to entries. A call that changes the scanner
  returns the changed scanner with its result. The calls of one scan are modelled one
  after the other, as they run when nothing else uses the scanner between them.
\<close>

record App =
  markdownFiles :: "TFile list"
  contentOf :: "TFile \<Rightarrow> string"
  readLog :: "TFile list"

record CacheEntry =
  entryMtime :: int
  parsed :: ParsedFileData

record HabitScanner =
  app :: App
  cache :: "(string, CacheEntry) jsmap"

definition invalidatePath :: "HabitScanner \<Rightarrow> string \<Rightarrow> HabitScanner" where
  "invalidatePath sc p = sc\<lparr>cache := AList.delete p (cache sc)\<rparr>"

definition clear :: "HabitScanner \<Rightarrow> HabitScanner" where
  "clear sc = sc\<lparr>cache := []\<rparr>"

text \<open>The part of \<^verbatim>\<open>getParsedFile\<close> after the test of the cache: read, parse, store.\<close>

definition readAndParse :: "zone \<Rightarrow> HabitScanner \<Rightarrow> TFile \<Rightarrow> ParsedFileData \<times> HabitScanner" where
  "readAndParse tz sc f =
     (let content = contentOf (app sc) f;
          vault = (app sc)\<lparr>readLog := readLog (app sc) @ [f]\<rparr>;
          p = parseMarkdownHabits tz f content
      in (p, sc\<lparr>app := vault,
                cache := AList.update (path f) \<lparr>entryMtime = mtime f, parsed = p\<rparr> (cache sc)\<rparr>))"

definition getParsedFile :: "zone \<Rightarrow> HabitScanner \<Rightarrow> TFile \<Rightarrow> ParsedFileData \<times> HabitScanner" where
  "getParsedFile tz sc f =
     (case map_of (cache sc) (path f) of
        Some cached \<Rightarrow>
          if entryMtime cached = mtime f then (parsed cached, sc) else readAndParse tz sc f
      | None \<Rightarrow> readAndParse tz sc f)"

subsection \<open>The files of a range\<close>

datatype RangeType = Week | Month | Year

record RangeResolution =
  rangeType :: RangeType
  startDate :: string
  endDate :: string
  dates :: "string list"

definition shouldIgnoreFile :: "string \<Rightarrow> bool" where
  "shouldIgnoreFile p =
     list_ex (\<lambda>segment. toLowerCase segment = ''templates'') (splitOn CHR ''/'' p)"

text \<open>The text before the last \<open>/\<close>, and the empty text when there is none.\<close>

definition getParentPath :: "string \<Rightarrow> string" where
  "getParentPath p =
     (if CHR ''/'' \<in> set p
      then rev (drop 1 (dropWhile (\<lambda>c. c \<noteq> CHR ''/'') (rev p)))
      else '''')"

definition getFilesForRange :: "HabitScanner \<Rightarrow> TFile \<Rightarrow> RangeType \<Rightarrow> TFile list" where
  "getFilesForRange sc currentFile ty =
     (let allMarkdown = filter (\<lambda>f. \<not> shouldIgnoreFile (path f)) (markdownFiles (app sc));
          dir = getParentPath (path currentFile)
      in case ty of
           Week \<Rightarrow> if shouldIgnoreFile (path currentFile) then [] else [currentFile]
         | Month \<Rightarrow> filter (\<lambda>f. getParentPath (path f) = dir) allMarkdown
         | Year \<Rightarrow>
             filter (\<lambda>f. getParentPath (path f) = dir
                          \<or> startsWith (getParentPath (path f)) (dir @ ''/'')) allMarkdown)"

subsection \<open>The scan\<close>

record AggregateBucket =
  bucketSum :: jsnum
  bucketHasNumeric :: bool
  boolTrue :: bool
  boolFalse :: bool

record ScanCandidate =
  cfile :: TFile
  headingLine :: nat
  habitsWithData :: "string list"

record ScanResult =
  scanDates :: "string list"
  valuesByHabit :: "(string, (string, ResolvedHabitValue) jsmap) jsmap"
  habitsFound :: "string list"
  candidatesByDate :: "(string, ScanCandidate list) jsmap"
  scannedFiles :: "TFile list"

text \<open>
  A \<^verbatim>\<open>Set\<close> is the list of its elements in insertion order; \<^verbatim>\<open>add\<close> appends an
  element that is not there.
\<close>

definition setAdd :: "'a \<Rightarrow> 'a list \<Rightarrow> 'a list" where
  "setAdd x xs = (if x \<in> set xs then xs else xs @ [x])"

text \<open>What the loop over the files carries from one file to the next.\<close>

record scanState =
  aggregates :: "(string, (string, AggregateBucket) jsmap) jsmap"
  candidates :: "(string, ScanCandidate list) jsmap"
  found :: "string list"
  scanner :: HabitScanner

text \<open>The body of the first inner loop: one entry of \<^verbatim>\<open>headingLinesByDate\<close>.\<close>

definition addCandidate ::
  "string list \<Rightarrow> ParsedFileData \<Rightarrow> TFile \<Rightarrow> (string, ScanCandidate list) jsmap \<Rightarrow>
   string \<times> nat list \<Rightarrow> (string, ScanCandidate list) jsmap" where
  "addCandidate dateSet p f cands entry =
     (case entry of (date, lines) \<Rightarrow>
        if date \<notin> set dateSet then cands
        else (let habits = (case map_of (valuesByDateHabit p) date of
                              Some dateValues \<Rightarrow> map fst dateValues
                            | None \<Rightarrow> []);
                  line = (case lines of l # _ \<Rightarrow> l | [] \<Rightarrow> 1);
                  existing = (case map_of cands date of Some e \<Rightarrow> e | None \<Rightarrow> [])
              in AList.update date
                   (existing @ [\<lparr>cfile = f, headingLine = line, habitsWithData = habits\<rparr>])
                   cands))"

text \<open>The body of the innermost loop of the second: one habit and value of a date in range.\<close>

definition addValue :: "string \<Rightarrow> scanState \<Rightarrow> string \<times> ResolvedHabitValue \<Rightarrow> scanState" where
  "addValue date st entry =
     (case entry of (habit, v) \<Rightarrow>
        (let byDate = (case map_of (aggregates st) habit of Some m \<Rightarrow> m | None \<Rightarrow> []);
             bucket = (case map_of byDate date of
                         Some b \<Rightarrow> b
                       | None \<Rightarrow> \<lparr>bucketSum = Fin 0, bucketHasNumeric = False,
                                    boolTrue = False, boolFalse = False\<rparr>);
             bucket' = (case v of
                          Numeric x \<Rightarrow>
                            bucket\<lparr>bucketHasNumeric := True,
                                   bucketSum := js_add (bucketSum bucket) x\<rparr>
                        | Boolean b \<Rightarrow>
                            if b then bucket\<lparr>boolTrue := True\<rparr> else bucket\<lparr>boolFalse := True\<rparr>)
         in st\<lparr>found := setAdd habit (found st),
               aggregates := AList.update habit (AList.update date bucket' byDate)
                               (aggregates st)\<rparr>))"

definition addValues ::
  "string list \<Rightarrow> scanState \<Rightarrow> string \<times> (string, ResolvedHabitValue) jsmap \<Rightarrow> scanState" where
  "addValues dateSet st entry =
     (case entry of (date, byHabit) \<Rightarrow>
        if date \<notin> set dateSet then st else foldl (addValue date) st byHabit)"

text \<open>The body of the loop over the files.\<close>

definition scanFile :: "zone \<Rightarrow> string list \<Rightarrow> scanState \<Rightarrow> TFile \<Rightarrow> scanState" where
  "scanFile tz dateSet st f =
     (case getParsedFile tz (scanner st) f of
        (p, sc) \<Rightarrow>
          foldl (addValues dateSet)
            (st\<lparr>scanner := sc,
                candidates := foldl (addCandidate dateSet p f) (candidates st)
                                (headingLinesByDate p)\<rparr>)
            (valuesByDateHabit p))"

text \<open>The two final loops: every bucket of every habit becomes a value, or nothing.\<close>

definition resolveBucket ::
  "(string, ResolvedHabitValue) jsmap \<Rightarrow> string \<times> AggregateBucket \<Rightarrow>
   (string, ResolvedHabitValue) jsmap" where
  "resolveBucket resolvedByDate entry =
     (case entry of (date, bucket) \<Rightarrow>
        if bucketHasNumeric bucket
        then AList.update date (Numeric (bucketSum bucket)) resolvedByDate
        else if boolTrue bucket then AList.update date (Boolean True) resolvedByDate
        else if boolFalse bucket then AList.update date (Boolean False) resolvedByDate
        else resolvedByDate)"

definition resolveAggregate ::
  "(string, (string, ResolvedHabitValue) jsmap) jsmap \<Rightarrow>
   string \<times> (string, AggregateBucket) jsmap \<Rightarrow>
   (string, (string, ResolvedHabitValue) jsmap) jsmap" where
  "resolveAggregate values entry =
     (case entry of (habit, byDate) \<Rightarrow>
        AList.update habit (foldl resolveBucket [] byDate) values)"

definition scan ::
  "zone \<Rightarrow> HabitScanner \<Rightarrow> TFile \<Rightarrow> RangeResolution \<Rightarrow> ScanResult \<times> HabitScanner" where
  "scan tz sc currentFile rng =
     (let files = getFilesForRange sc currentFile (rangeType rng);
          st = foldl (scanFile tz (dates rng))
                 \<lparr>aggregates = [], candidates = [], found = [], scanner = sc\<rparr> files
      in (\<lparr>scanDates = dates rng,
           valuesByHabit = foldl resolveAggregate [] (aggregates st),
           habitsFound = found st,
           candidatesByDate = candidates st,
           scannedFiles = files\<rparr>,
          scanner st))"

text \<open>The parse results that a scan of the files gets from the cache, in their order.\<close>

fun parsedFiles :: "zone \<Rightarrow> HabitScanner \<Rightarrow> TFile list \<Rightarrow> ParsedFileData list" where
  "parsedFiles tz sc [] = []"
| "parsedFiles tz sc (f # fs) =
     fst (getParsedFile tz sc f) # parsedFiles tz (snd (getParsedFile tz sc f)) fs"

subsection \<open>The habit names of a parse result\<close>

text \<open>
  The habit names of the value map of a parse result: those under a date of a given list
  of dates, and all of them.
\<close>

definition habitsInRange :: "string list \<Rightarrow> ParsedFileData \<Rightarrow> string list" where
  "habitsInRange dateSet p =
     concat (map (\<lambda>e. map fst (snd e))
               (filter (\<lambda>e. fst e \<in> set dateSet) (valuesByDateHabit p)))"

definition habitsOfParsed :: "ParsedFileData \<Rightarrow> string list" where
  "habitsOfParsed p = concat (map (\<lambda>e. map fst (snd e)) (valuesByDateHabit p))"

section \<open>Configuration (normalizeConfig, normalizeThresholds, clampNumber)\<close>

subsection \<open>More of the number and value operations\<close>

text \<open>
  \<^verbatim>\<open>Math.round\<close> (halves go up), \<^verbatim>\<open>Math.max\<close> and \<^verbatim>\<open>Math.min\<close> of two numbers,
  \<^verbatim>\<open>Number.isInteger\<close> of a value, the operator \<^verbatim>\<open>??\<close>, and the property of a value
  under a name that is not an array index or \<^verbatim>\<open>length\<close> (an array has none).
\<close>

fun js_round :: "jsnum \<Rightarrow> jsnum" where
  "js_round (Fin r) = Fin (of_int \<lfloor>r + 1 / 2\<rfloor>)"
| "js_round x = x"

definition js_max :: "jsnum \<Rightarrow> jsnum \<Rightarrow> jsnum" where
  "js_max a b = (if isNaN a \<or> isNaN b then NaN else if js_le a b then b else a)"

definition js_min :: "jsnum \<Rightarrow> jsnum \<Rightarrow> jsnum" where
  "js_min a b = (if isNaN a \<or> isNaN b then NaN else if js_le a b then a else b)"

fun isInteger :: "jsval \<Rightarrow> bool" where
  "isInteger (JNum (Fin r)) = (of_int \<lfloor>r\<rfloor> = r)"
| "isInteger _ = False"

definition nullish :: "jsval \<Rightarrow> jsval \<Rightarrow> jsval" where
  "nullish v d = (if v = JUndefined \<or> v = JNull then d else v)"

text \<open>\<^verbatim>\<open>typeof v === "object" && v != null\<close>: an object or an array.\<close>

fun isObject :: "jsval \<Rightarrow> bool" where
  "isObject (JObj kvs) = True"
| "isObject (JArr vs) = True"
| "isObject _ = False"

fun getProp :: "jsval \<Rightarrow> string \<Rightarrow> jsval" where
  "getProp (JObj kvs) k = (case map_of kvs k of Some v \<Rightarrow> v | None \<Rightarrow> JUndefined)"
| "getProp _ k = JUndefined"

subsection \<open>The configuration types (types.ts)\<close>

text \<open>
  The raw configuration is what the decoder made of the block. A part that is absent is
  \<open>None\<close> or \<^const>\<open>JUndefined\<close>. The fields that the code tests at run time (the range
  type, year, month and title flag, the habit mode, the threshold entries, the cell size,
  the gap and the week start) hold any value; the others have their declared types.
\<close>

record RawRange =
  rawType :: jsval
  rawYear :: jsval
  rawMonth :: jsval
  rawFromTitle :: jsval

record RawHabits =
  rawMode :: jsval
  rawList :: "string list option"

record RawBooleanColors =
  rawTrue :: "string option"
  rawFalse :: "string option"

record RawColors =
  rawNoData :: "string option"
  rawBlankFuture :: "string option"
  rawBoolean :: "RawBooleanColors option"
  rawThresholds :: "jsval list option"

record RawDisplay =
  rawTitle :: "string option"
  rawShowLegend :: "bool option"
  rawCellSize :: jsval
  rawGap :: jsval
  rawWeekStart :: jsval

record HeatmapBlockConfig =
  inRange :: "RawRange option"
  inHabits :: "RawHabits option"
  inColors :: "RawColors option"
  inDisplay :: "RawDisplay option"

datatype NumericThreshold = Le jsnum string | Gt jsnum string

fun thresholdColor :: "NumericThreshold \<Rightarrow> string" where
  "thresholdColor (Le v c) = c"
| "thresholdColor (Gt v c) = c"

record ConfigRange =
  rangeTypeOf :: jsval
  yearOf :: jsval
  monthOf :: jsval
  fromTitle :: jsval

record ConfigHabits =
  mode :: string
  habitList :: "string list"

record ConfigColors =
  noData :: string
  blankFuture :: string
  booleanTrue :: string
  booleanFalse :: string
  thresholds :: "NumericThreshold list"

record ConfigDisplay =
  title :: string
  showLegend :: bool
  cellSize :: jsnum
  gap :: jsnum
  weekStart :: string

record NormalizedConfig =
  cfgRange :: ConfigRange
  cfgHabits :: ConfigHabits
  cfgColors :: ConfigColors
  cfgDisplay :: ConfigDisplay

definition DEFAULT_CONFIG :: NormalizedConfig where
  "DEFAULT_CONFIG =
     \<lparr>cfgRange = \<lparr>rangeTypeOf = JStr ''week'', yearOf = JUndefined, monthOf = JUndefined,
                   fromTitle = JBool True\<rparr>,
      cfgHabits = \<lparr>mode = ''auto'', habitList = []\<rparr>,
      cfgColors = \<lparr>noData = ''#2b2b2b'', blankFuture = ''transparent'',
                    booleanTrue = ''#22c55e'', booleanFalse = ''#ef4444'',
                    thresholds = [Le (Fin 0) ''#111827'', Le (Fin 10) ''#1f2937'',
                                  Le (Fin 25) ''#374151'', Le (Fin 50) ''#4b5563'',
                                  Gt (Fin 50) ''#6b7280'']\<rparr>,
      cfgDisplay = \<lparr>title = '''', showLegend = True, cellSize = Fin 12, gap = Fin 2,
                     weekStart = ''Monday''\<rparr>\<rparr>"

subsection \<open>clampNumber and normalizeThresholds\<close>

definition clampNumber :: "jsval \<Rightarrow> jsnum \<Rightarrow> jsnum \<Rightarrow> jsnum \<Rightarrow> jsnum" where
  "clampNumber v lo hi fallback =
     (case v of
        JNum n \<Rightarrow> if isNaN n then fallback else js_min hi (js_max lo (js_round n))
      | _ \<Rightarrow> fallback)"

text \<open>The body of the loop of \<^verbatim>\<open>normalizeThresholds\<close>, for one entry.\<close>

definition thresholdEntry :: "NumericThreshold list \<Rightarrow> jsval \<Rightarrow> NumericThreshold list" where
  "thresholdEntry out entry =
     (if \<not> isObject entry then out
      else (case getProp entry ''color'' of
              JStr color \<Rightarrow>
                if length (trim color) = 0 then out
                else (case getProp entry ''le'' of
                        JNum le \<Rightarrow> out @ [Le le color]
                      | _ \<Rightarrow>
                          (case getProp entry ''gt'' of
                             JNum gt \<Rightarrow> out @ [Gt gt color]
                           | _ \<Rightarrow> out))
            | _ \<Rightarrow> out))"

definition normalizeThresholds ::
  "jsval list \<Rightarrow> string list \<Rightarrow> NumericThreshold list \<times> string list" where
  "normalizeThresholds input errors =
     (let out = foldl thresholdEntry [] input
      in if length out = 0
         then (thresholds (cfgColors DEFAULT_CONFIG),
               errors @ [''colors.numeric.thresholds must include at least one valid threshold''])
         else (out, errors))"

subsection \<open>normalizeConfig\<close>

text \<open>\<^verbatim>\<open>/^[a-z0-9_]+$/\<close>, \<^verbatim>\<open>[...new Set(list)]\<close> and \<^verbatim>\<open>list.join(", ")\<close>.\<close>

definition isLowerSnakeCase :: "string \<Rightarrow> bool" where
  "isLowerSnakeCase v = (v \<noteq> [] \<and> list_all isNameChar v)"

definition uniqueInOrder :: "'a list \<Rightarrow> 'a list" where
  "uniqueInOrder xs = foldl (\<lambda>acc x. setAdd x acc) [] xs"

fun joinComma :: "string list \<Rightarrow> string" where
  "joinComma [] = []"
| "joinComma [x] = x"
| "joinComma (x # y # ys) = x @ '', '' @ joinComma (y # ys)"

text \<open>\<^verbatim>\<open>input.part?.field\<close> and \<^verbatim>\<open>input.part?.field ?? fallback\<close> for the typed fields.\<close>

definition field :: "'r option \<Rightarrow> ('r \<Rightarrow> jsval) \<Rightarrow> jsval" where
  "field part sel = (case part of Some r \<Rightarrow> sel r | None \<Rightarrow> JUndefined)"

definition fieldOr :: "'r option \<Rightarrow> ('r \<Rightarrow> 'a option) \<Rightarrow> 'a \<Rightarrow> 'a" where
  "fieldOr part sel fallback =
     (case part of
        Some r \<Rightarrow> (case sel r of Some v \<Rightarrow> v | None \<Rightarrow> fallback)
      | None \<Rightarrow> fallback)"

text \<open>The error list after the checks of the thresholds, the habit mode and the habit list.\<close>

definition habitErrors :: "string list \<Rightarrow> jsval \<Rightarrow> string list \<Rightarrow> string list" where
  "habitErrors errors modeValue habits =
     errors
       @ (if modeValue \<noteq> JStr ''auto'' \<and> modeValue \<noteq> JStr ''list''
          then [''habits.mode must be auto or list''] else [])
       @ (if modeValue = JStr ''list'' \<and> length habits = 0
          then [''habits.list must include at least one habit when habits.mode=list'']
          else [])
       @ (if length (filter (\<lambda>habit. \<not> isLowerSnakeCase habit) habits) > 0
          then [''habits.list contains invalid names (use lower_snake_case): ''
                  @ joinComma (filter (\<lambda>habit. \<not> isLowerSnakeCase habit) habits)]
          else [])"

text \<open>The configuration that \<^verbatim>\<open>normalizeConfig\<close> builds, given the thresholds.\<close>

definition buildConfig ::
  "HeatmapBlockConfig \<Rightarrow> NumericThreshold list \<Rightarrow> jsval \<Rightarrow> string list \<Rightarrow> NormalizedConfig" where
  "buildConfig input ths modeValue habits =
     \<lparr>cfgRange =
        \<lparr>rangeTypeOf = nullish (field (inRange input) rawType)
                         (rangeTypeOf (cfgRange DEFAULT_CONFIG)),
         yearOf = field (inRange input) rawYear,
         monthOf = field (inRange input) rawMonth,
         fromTitle = nullish (field (inRange input) rawFromTitle)
                       (fromTitle (cfgRange DEFAULT_CONFIG))\<rparr>,
      cfgHabits =
        \<lparr>mode = (if modeValue = JStr ''list'' then ''list'' else ''auto''),
         habitList = uniqueInOrder habits\<rparr>,
      cfgColors =
        \<lparr>noData = fieldOr (inColors input) rawNoData (noData (cfgColors DEFAULT_CONFIG)),
         blankFuture = fieldOr (inColors input) rawBlankFuture
                         (blankFuture (cfgColors DEFAULT_CONFIG)),
         booleanTrue = fieldOr (fieldOr (inColors input) (\<lambda>c. Some (rawBoolean c)) None)
                         rawTrue (booleanTrue (cfgColors DEFAULT_CONFIG)),
         booleanFalse = fieldOr (fieldOr (inColors input) (\<lambda>c. Some (rawBoolean c)) None)
                          rawFalse (booleanFalse (cfgColors DEFAULT_CONFIG)),
         thresholds = ths\<rparr>,
      cfgDisplay =
        \<lparr>title = fieldOr (inDisplay input) rawTitle (title (cfgDisplay DEFAULT_CONFIG)),
         showLegend = fieldOr (inDisplay input) rawShowLegend
                        (showLegend (cfgDisplay DEFAULT_CONFIG)),
         cellSize = clampNumber (field (inDisplay input) rawCellSize) (Fin 6) (Fin 30)
                      (cellSize (cfgDisplay DEFAULT_CONFIG)),
         gap = clampNumber (field (inDisplay input) rawGap) (Fin 0) (Fin 8)
                 (gap (cfgDisplay DEFAULT_CONFIG)),
         weekStart = (if field (inDisplay input) rawWeekStart = JStr ''Sunday''
                      then ''Sunday'' else ''Monday'')\<rparr>\<rparr>"

definition normalizeConfig :: "HeatmapBlockConfig \<Rightarrow> string list + NormalizedConfig" where
  "normalizeConfig input =
     (let thresholdsInput = fieldOr (inColors input) rawThresholds [];
          normalized = (if length thresholdsInput > 0 then normalizeThresholds thresholdsInput []
                        else (thresholds (cfgColors DEFAULT_CONFIG), []));
          habits = filter (\<lambda>habit. length habit > 0)
                     (map trim (fieldOr (inHabits input) rawList []));
          modeValue = nullish (field (inHabits input) rawMode)
                        (JStr (mode (cfgHabits DEFAULT_CONFIG)));
          errors1 = habitErrors (snd normalized) modeValue habits;
          config = buildConfig input (fst normalized) modeValue habits;
          errors2 = errors1
            @ (if rangeTypeOf (cfgRange config) \<noteq> JStr ''week''
                  \<and> rangeTypeOf (cfgRange config) \<noteq> JStr ''month''
                  \<and> rangeTypeOf (cfgRange config) \<noteq> JStr ''year''
               then [''range.type must be week, month, or year''] else [])
      in if length errors2 > 0 then Inl errors2 else Inr config)"

section \<open>Range resolution (resolveRange)\<close>

text \<open>
  \<^verbatim>\<open>/^\s*(\d{4}\.\d{2}\.\d{2})\s*-\s*(\d{4}\.\d{2}\.\d{2})\s*$/\<close> on the title of a file: the
  two groups.
\<close>

definition matchWeekTitle :: "string \<Rightarrow> (string \<times> string) option" where
  "matchWeekTitle t =
     (let r0 = dropWhile isSpace t;
          r1 = dropWhile isSpace (drop 10 r0);
          r2 = dropWhile isSpace (drop 1 r1)
      in if isDateToken CHR ''.'' (take 10 r0) \<and> startsWith r1 ''-''
            \<and> isDateToken CHR ''.'' (take 10 r2) \<and> list_all isSpace (drop 10 r2)
         then Some (take 10 r0, take 10 r2) else None)"

text \<open>\<^verbatim>\<open>isValidYear\<close>, and the integer that a value is when \<^verbatim>\<open>Number.isInteger\<close> holds.\<close>

fun theInteger :: "jsval \<Rightarrow> int" where
  "theInteger (JNum (Fin r)) = \<lfloor>r\<rfloor>"
| "theInteger v = 0"

definition isValidYear :: "jsval \<Rightarrow> bool" where
  "isValidYear year = (isInteger year \<and> 1970 \<le> theInteger year \<and> theInteger year \<le> 9999)"

text \<open>The three branches of \<^verbatim>\<open>resolveRange\<close>.\<close>

definition resolveWeek :: "zone \<Rightarrow> NormalizedConfig \<Rightarrow> TFile \<Rightarrow> string list + RangeResolution" where
  "resolveWeek tz config f =
     (if fromTitle (cfgRange config) \<noteq> JBool True
      then Inl [''week range requires range.fromTitle=true'']
      else (case matchWeekTitle (basename f) of
              None \<Rightarrow> Inl [''week note title must match YYYY.MM.dd - YYYY.MM.dd'']
            | Some (first, second) \<Rightarrow>
                (case (normalizeIsoDate tz (headingToIso first),
                       normalizeIsoDate tz (headingToIso second)) of
                   (Some start, Some end) \<Rightarrow>
                     (let ds = enumerateDates tz start end
                      in if length ds \<noteq> 7
                         then Inl [''week range must include exactly 7 dates, found ''
                                     @ showNat (length ds)]
                         else Inr \<lparr>rangeType = Week, startDate = start, endDate = end,
                                    dates = ds\<rparr>)
                 | _ \<Rightarrow> Inl [''week note title contains invalid date''])))"

definition resolveMonth :: "zone \<Rightarrow> NormalizedConfig \<Rightarrow> string list + RangeResolution" where
  "resolveMonth tz config =
     (let year = yearOf (cfgRange config);
          month = monthOf (cfgRange config);
          errors = (if \<not> isValidYear year then [''month range requires range.year''] else [])
            @ (if \<not> isInteger month \<or> theInteger month < 1 \<or> theInteger month > 12
               then [''month range requires range.month (1-12)''] else [])
      in if length errors > 0 then Inl errors
         else (let start = showInt (theInteger year) @ ''-''
                             @ padStart2 (showInt (theInteger month)) @ ''-01'';
                   end = toIsoDate tz (newDate tz (theInteger year) (theInteger month) 0)
               in Inr \<lparr>rangeType = Month, startDate = start, endDate = end,
                        dates = enumerateDates tz start end\<rparr>))"

definition resolveYear :: "zone \<Rightarrow> NormalizedConfig \<Rightarrow> string list + RangeResolution" where
  "resolveYear tz config =
     (if \<not> isValidYear (yearOf (cfgRange config)) then Inl [''year range requires range.year'']
      else (let start = showInt (theInteger (yearOf (cfgRange config))) @ ''-01-01'';
                end = showInt (theInteger (yearOf (cfgRange config))) @ ''-12-31''
            in Inr \<lparr>rangeType = Year, startDate = start, endDate = end,
                     dates = enumerateDates tz start end\<rparr>))"

definition resolveRange :: "zone \<Rightarrow> NormalizedConfig \<Rightarrow> TFile \<Rightarrow> string list + RangeResolution" where
  "resolveRange tz config f =
     (if rangeTypeOf (cfgRange config) = JStr ''week'' then resolveWeek tz config f
      else if rangeTypeOf (cfgRange config) = JStr ''month'' then resolveMonth tz config
      else resolveYear tz config)"

section \<open>Appearance (resolveAppearance, resolveNumericColor)\<close>

text \<open>
  \<^verbatim>\<open>a <= b\<close> on texts: the order of the character codes, a proper prefix first.
\<close>

fun textLe :: "string \<Rightarrow> string \<Rightarrow> bool" where
  "textLe [] b = True"
| "textLe (x # a) [] = False"
| "textLe (x # a) (y # b) = (if x = y then textLe a b else (of_char x :: nat) < of_char y)"

datatype CellKind = DataCell | BlankCell

record Appearance =
  cellColor :: string
  tooltip :: string
  cellKind :: CellKind

text \<open>The loop of \<^verbatim>\<open>resolveNumericColor\<close>: the color of the first threshold that matches.\<close>

fun firstMatch :: "NumericThreshold list \<Rightarrow> jsnum \<Rightarrow> string option" where
  "firstMatch [] v = None"
| "firstMatch (Le bound c # ts) v = (if js_le v bound then Some c else firstMatch ts v)"
| "firstMatch (Gt bound c # ts) v = (if js_gt v bound then Some c else firstMatch ts v)"

definition resolveNumericColor :: "NumericThreshold list \<Rightarrow> jsnum \<Rightarrow> string" where
  "resolveNumericColor ths v =
     (case firstMatch ths v of
        Some c \<Rightarrow> c
      | None \<Rightarrow> if ths = [] then ''#6b7280'' else thresholdColor (last ths))"

text \<open>
  The date of today (\<^verbatim>\<open>todayIsoDate()\<close>) and the text of a number in a template literal
  are parameters.
\<close>

definition resolveAppearance ::
  "(jsnum \<Rightarrow> string) \<Rightarrow> string \<Rightarrow> NormalizedConfig \<Rightarrow> string \<Rightarrow> ResolvedHabitValue option \<Rightarrow>
   Appearance" where
  "resolveAppearance numberText today config date v =
     (case v of
        None \<Rightarrow>
          if textLe today date
          then \<lparr>cellColor = blankFuture (cfgColors config),
                tooltip = ''blank (today/future missing)'', cellKind = BlankCell\<rparr>
          else \<lparr>cellColor = noData (cfgColors config), tooltip = ''no data'', cellKind = DataCell\<rparr>
      | Some (Boolean b) \<Rightarrow>
          \<lparr>cellColor = (if b then booleanTrue (cfgColors config) else booleanFalse (cfgColors config)),
           tooltip = (if b then ''true'' else ''false''), cellKind = DataCell\<rparr>
      | Some (Numeric x) \<Rightarrow>
          \<lparr>cellColor = resolveNumericColor (thresholds (cfgColors config)) x,
           tooltip = numberText x, cellKind = DataCell\<rparr>)"

section \<open>Example inputs\<close>

text \<open>
  A journal of one week with a heading inside the week and one outside, a scanner with an
  empty cache over a vault that holds only this journal, and the range of that week.
\<close>

definition exampleFile :: TFile where
  "exampleFile =
     \<lparr>path = ''journal/2026.02.09 - 2026.02.15.md'', basename = ''2026.02.09 - 2026.02.15'',
      mtime = 1\<rparr>"

definition exampleContent :: string where
  "exampleContent =
     ''## 2026.02.10'' @ [CHR 0x0A] @ ''habit-workout::20'' @ [CHR 0x0A]
       @ ''## 2026.03.30'' @ [CHR 0x0A] @ ''- [x] habit-read''"

definition exampleScanner :: HabitScanner where
  "exampleScanner =
     \<lparr>app = \<lparr>markdownFiles = [exampleFile], contentOf = (\<lambda>f. exampleContent), readLog = []\<rparr>,
      cache = []\<rparr>"

definition exampleWeek :: RangeResolution where
  "exampleWeek =
     \<lparr>rangeType = Week, startDate = ''2026-02-09'', endDate = ''2026-02-15'',
      dates = [''2026-02-09'', ''2026-02-10'', ''2026-02-11'', ''2026-02-12'', ''2026-02-13'',
               ''2026-02-14'', ''2026-02-15'']\<rparr>"

subsection \<open>What normalization keeps of the display sizes and of the thresholds\<close>

text \<open>
  The size that a raw value stands for between two bounds: a finite number is rounded to
  the nearest integer (a half goes up) and moved into the bounds, an infinite one is moved
  to the bound on its side, and every other value (absent, NaN or no number) gives the
  fallback.
\<close>

fun clampedSize :: "int \<Rightarrow> int \<Rightarrow> jsnum \<Rightarrow> jsval \<Rightarrow> jsnum" where
  "clampedSize lo hi fallback (JNum (Fin r)) = Fin (of_int (max lo (min hi \<lfloor>r + 1 / 2\<rfloor>)))"
| "clampedSize lo hi fallback (JNum PosInf) = Fin (of_int hi)"
| "clampedSize lo hi fallback (JNum NegInf) = Fin (of_int lo)"
| "clampedSize lo hi fallback v = fallback"

definition errorsOf :: "string list + NormalizedConfig \<Rightarrow> string list" where
  "errorsOf r = (case r of Inl errors \<Rightarrow> errors | Inr config \<Rightarrow> [])"

text \<open>
  The threshold that an entry of the raw list stands for, if it stands for one: the entry
  is an object whose color is a text with more than white space in it and whose
  \<open>le\<close> or \<open>gt\<close> is a number; \<open>le\<close> is taken when both are numbers.
\<close>

fun isNumber :: "jsval \<Rightarrow> bool" where
  "isNumber (JNum n) = True"
| "isNumber v = False"

fun isNonBlankText :: "jsval \<Rightarrow> bool" where
  "isNonBlankText (JStr s) = (trim s \<noteq> [])"
| "isNonBlankText v = False"

definition keepsEntry :: "jsval \<Rightarrow> bool" where
  "keepsEntry entry =
     (isObject entry \<and> isNonBlankText (getProp entry ''color'')
      \<and> (isNumber (getProp entry ''le'') \<or> isNumber (getProp entry ''gt'')))"

definition thresholdOf :: "jsval \<Rightarrow> NumericThreshold option" where
  "thresholdOf entry =
     (case (getProp entry ''color'', getProp entry ''le'', getProp entry ''gt'') of
        (JStr color, JNum le, gt) \<Rightarrow> if keepsEntry entry then Some (Le le color) else None
      | (JStr color, le, JNum gt) \<Rightarrow> if keepsEntry entry then Some (Gt gt color) else None
      | _ \<Rightarrow> None)"

text \<open>
  The reading of the claim: an entry counts when its color is a text that is not empty
  and exactly one of \<open>le\<close> and \<open>gt\<close> is a number.
\<close>

definition suppliesExactlyOneBound :: "jsval \<Rightarrow> bool" where
  "suppliesExactlyOneBound entry =
     (isObject entry \<and> (case getProp entry ''color'' of JStr c \<Rightarrow> c \<noteq> [] | _ \<Rightarrow> False)
      \<and> (isNumber (getProp entry ''le'') \<noteq> isNumber (getProp entry ''gt'')))"

text \<open>A raw configuration that sets only a cell size of 100 and a gap that is a text.\<close>

definition exampleRawConfig :: HeatmapBlockConfig where
  "exampleRawConfig =
     \<lparr>inRange = None, inHabits = None, inColors = None,
      inDisplay = Some \<lparr>rawTitle = None, rawShowLegend = None, rawCellSize = JNum (Fin 100),
                         rawGap = JStr ''3'', rawWeekStart = JUndefined\<rparr>\<rparr>"

text \<open>
  A journal whose title spans eight days around the start of summer time in New York, and
  the configuration of the month of March 2024.
\<close>

definition marchWeekFile :: TFile where
  "marchWeekFile =
     \<lparr>path = ''journal/2024.03.09 - 2024.03.16.md'', basename = ''2024.03.09 - 2024.03.16'',
      mtime = 1\<rparr>"

definition marchConfig :: NormalizedConfig where
  "marchConfig =
     DEFAULT_CONFIG\<lparr>cfgRange := \<lparr>rangeTypeOf = JStr ''month'', yearOf = JNum (Fin 2024),
                                  monthOf = JNum (Fin 3), fromTitle = JBool True\<rparr>\<rparr>"

text \<open>Whether a number matches a threshold: at most the bound of a \<open>le\<close>, above that of a \<open>gt\<close>.\<close>

fun thresholdMatches :: "jsnum \<Rightarrow> NumericThreshold \<Rightarrow> bool" where
  "thresholdMatches v (Le bound c) = js_le v bound"
| "thresholdMatches v (Gt bound c) = js_gt v bound"


section \<open>Verified properties\<close>

subsection \<open>Rules for evaluating the model on concrete inputs\<close>

text \<open>
  The recursive equations of the loops are taken out of the simplifier and replaced by
  one rule for each branch, and the definitions of the date functions are used at
  numerals only, so that simplification evaluates closed terms and leaves open ones alone.
\<close>

declare yearSearch.simps [simp del]
declare enumerateLoop.simps [simp del]
declare showNat.simps [simp del]

lemma yearSearch_step:
  "DayFromYear (y + 1) \<le> day \<Longrightarrow> yearSearch day y = yearSearch day (y + 1)"
  by (subst yearSearch.simps) simp

lemma yearSearch_stop: "\<not> DayFromYear (y + 1) \<le> day \<Longrightarrow> yearSearch day y = y"
  by (subst yearSearch.simps) simp

lemma showNat_small: "n < 10 \<Longrightarrow> showNat n = [digitChar n]"
  by (subst showNat.simps) simp

lemma showNat_large:
  "\<not> n < 10 \<Longrightarrow> showNat n = showNat (n div 10) @ [digitChar (n mod 10)]"
  by (subst showNat.simps) simp

lemma enumerateLoop_step:
  "i < n \<Longrightarrow>
   enumerateLoop tz start i n = toIsoDate tz (addDays tz start i) # enumerateLoop tz start (i + 1) n"
  by (subst enumerateLoop.simps) simp

lemma enumerateLoop_stop: "\<not> i < n \<Longrightarrow> enumerateLoop tz start i n = []"
  by (subst enumerateLoop.simps) simp

lemma utcZone_offsets: "tzaOfUTC utcZone t = 0" "tzaOfLocal utcZone t = 0"
  by (simp_all add: utcZone_def)

lemma newYork2024_tzaOfUTC:
  "tzaOfUTC newYork2024 t =
     (if 1710054000000 \<le> t \<and> t < 1730613600000 then - 14400000 else - 18000000)"
  by (simp add: newYork2024_def MakeDay_def DayFromYear_def monthStart_def InLeapYear_def
      msPerDay_def msPerHour_def)

lemma newYork2024_tzaOfLocal:
  "tzaOfLocal newYork2024 t =
     (if 1710039600000 \<le> t \<and> t < 1730599200000 then - 14400000 else - 18000000)"
  by (simp add: newYork2024_def MakeDay_def DayFromYear_def monthStart_def InLeapYear_def
      msPerDay_def msPerHour_def)

lemmas zone_eval =
  utcZone_offsets newYork2024_tzaOfUTC[of "numeral k"] newYork2024_tzaOfLocal[of "numeral k"]
  for k

lemmas date_eval =
  getDate_def[of _ "numeral k"] getMonth_def[of _ "numeral k"] getFullYear_def[of _ "numeral k"]
  getTime_def newDate_def[of _ "numeral k"] MakeDay_def[of "numeral k"]
  DayFromYear_def[of "numeral k"] monthStart_def[of _ True] monthStart_def[of _ False]
  InLeapYear_def[of "numeral k"] msPerDay_def msPerHour_def localTime_def[of _ "numeral k"]
  DateFromTime_def[of "numeral k"] DayWithinYear_def[of "numeral k"] Day_def[of "numeral k"]
  YearFromTime_def[of "numeral k"] YearFromDay_def[of "numeral k"]
  MonthFromTime_def[of "numeral k"] monthOfDay_def[of _ True] monthOfDay_def[of _ False]
  yearSearch_step yearSearch_stop addDays_def[of _ "numeral k"]
  dayDiffInclusive_def[of _ "numeral k"] enumerateLoop_step enumerateLoop_stop
  for k

lemmas show_eval =
  toIsoDate_def[of _ "numeral k"] showInt_def[of "numeral k"] padStart2_def digitChar_def
  showNat_small showNat_large
  for k

lemmas iso_eval =
  normalizeIsoDate_def parseIsoDate_def isDateToken_def isDigit_def digitsValue_def
  digitValue_def enumerateDates_def

lemma scanInline_numeral: "scanInline (numeral k) (c # cs) = scanInline (pred_numeral k) cs"
  by (simp add: numeral_eq_Suc)

lemma scanChecklist_numeral:
  "scanChecklist (numeral k) (c # cs) = scanChecklist (pred_numeral k) cs"
  by (simp add: numeral_eq_Suc)

lemmas inline_eval =
  inlineMatches_def matchInlineAt_def matchInlineValue_def startsWith_def isNameChar_def
  isDigit_def scanInline_numeral

declare bitLength.simps [simp del]

lemma bitLength_0: "bitLength 0 = 0"
  by (simp add: bitLength.simps)

lemma bitLength_1: "bitLength (Suc 0) = 1"
  by (subst bitLength.simps) (simp add: bitLength_0)

lemma bitLength_numeral: "bitLength (numeral k) = bitLength (numeral k div 2) + 1"
  by (subst bitLength.simps) simp

lemma floor_rat_numeral:
  "\<lfloor>(numeral a :: rat) / numeral b\<rfloor> = numeral a div numeral b"
  using floor_divide_of_int_eq[of "numeral a" "numeral b", where ?'a = rat] by simp

lemma ceiling_rat_numeral:
  "\<lceil>(numeral a :: rat) / numeral b\<rceil> = - (- numeral a div numeral b)"
  using floor_divide_of_int_eq[of "- numeral a" "numeral b", where ?'a = rat]
  by (simp add: ceiling_def)

lemmas double_eval =
  roundToDouble_def binaryExponent_def roundHalfEven_def pow2_def bitLength_0 bitLength_1
  bitLength_numeral Let_def floor_rat_numeral ceiling_rat_numeral

lemmas number_eval =
  trim_def toLowerCase_def lowerChar_def isSpace_def toNumber_def isDigit_def digitsValue_def
  digitValue_def double_eval

subsection \<open>The rounding of numbers\<close>

text \<open>
  The binary exponent is the one that the value lies at, and the rounded value is a
  multiple of the unit in the last place that is at most half a unit away: the result of
  \<open>roundToDouble\<close> is a nearest double.
\<close>

lemma bitLength_bounds: "0 < n \<Longrightarrow> 2 ^ (bitLength n - 1) \<le> n \<and> n < 2 ^ bitLength n"
proof (induction n rule: bitLength.induct)
  case (1 n)
  show ?case
  proof (cases "n div 2 = 0")
    case True
    with 1(2) have "n = 1" by (simp add: div_eq_0_iff)
    then show ?thesis by (simp add: bitLength_1)
  next
    case False
    define m where "m = n div 2"
    from False have m: "0 < m" by (simp add: m_def)
    from 1(1)[OF _ m[unfolded m_def]] 1(2)
    have ih: "2 ^ (bitLength m - 1) \<le> m" "m < 2 ^ bitLength m" by (simp_all add: m_def)
    have b: "bitLength n = bitLength m + 1"
      using 1(2) by (subst bitLength.simps) (simp add: m_def)
    have pos: "0 < bitLength m" using m by (subst bitLength.simps) simp
    have n: "2 * m \<le> n" "n < 2 * m + 2" by (simp_all add: m_def)
    have "(2::nat) ^ (bitLength n - 1) = 2 * 2 ^ (bitLength m - 1)"
      using pos by (cases "bitLength m") (simp_all add: b)
    moreover have "(2::nat) ^ bitLength n = 2 * 2 ^ bitLength m" by (simp add: b)
    ultimately show ?thesis using ih n by linarith
  qed
qed

lemma bitLength_bounds_rat:
  assumes "0 < n"
  shows "(2::rat) ^ (bitLength n - 1) \<le> of_nat n"
    and "of_nat n + 1 \<le> (2::rat) ^ bitLength n"
proof -
  from bitLength_bounds[OF assms]
  have "2 ^ (bitLength n - 1) \<le> n" and "n + 1 \<le> 2 ^ bitLength n"
    by simp_all
  then have "(of_nat (2 ^ (bitLength n - 1)) :: rat) \<le> of_nat n"
    and "(of_nat (n + 1) :: rat) \<le> of_nat (2 ^ bitLength n)"
    by (simp_all only: of_nat_le_iff)
  then show "(2::rat) ^ (bitLength n - 1) \<le> of_nat n"
    and "of_nat n + 1 \<le> (2::rat) ^ bitLength n"
    by simp_all
qed

lemma pow2_nat: "pow2 (int k) = 2 ^ k" and pow2_neg: "pow2 (- int k) = 1 / 2 ^ k"
  by (auto simp: pow2_def)

lemma pow2_pos: "0 < pow2 e"
  by (simp add: pow2_def)

lemma binaryExponent_bounds:
  assumes "0 < r"
  shows "pow2 (binaryExponent r) \<le> r \<and> r < pow2 (binaryExponent r + 1)"
proof (cases "1 \<le> r")
  case True
  define n where "n = nat \<lfloor>r\<rfloor>"
  have n: "0 < n" "of_nat n \<le> r" "r < of_nat n + 1"
    using True by (simp_all add: n_def) linarith+
  have pos: "0 < bitLength n" using n(1) by (subst bitLength.simps) simp
  have e: "binaryExponent r = int (bitLength n - 1)" "binaryExponent r + 1 = int (bitLength n)"
    using True pos by (simp_all add: binaryExponent_def n_def[symmetric] of_nat_diff)
  show ?thesis
    using n bitLength_bounds_rat[OF n(1)] unfolding e(2) unfolding e(1) pow2_nat by linarith
next
  case False
  define x where "x = 1 / r"
  define m where "m = nat (\<lceil>x\<rceil> - 1)"
  define j where "j = bitLength m"
  have x: "1 < x" using assms False by (simp add: x_def)
  then have c: "2 \<le> \<lceil>x\<rceil>" by linarith
  then have m: "0 < m" "of_nat m < x" "x \<le> of_nat m + 1"
    by (simp_all add: m_def) linarith+
  have jb: "(2::rat) ^ (j - 1) \<le> of_nat m" "of_nat m + 1 \<le> (2::rat) ^ j"
    using bitLength_bounds_rat[OF m(1)] unfolding j_def by simp_all
  have jpos: "0 < j" unfolding j_def using m(1) by (subst bitLength.simps) simp
  have e: "binaryExponent r = - int j"
    using False by (simp add: binaryExponent_def x_def m_def j_def)
  have e1: "binaryExponent r + 1 = - int (j - 1)"
    using jpos by (simp add: e of_nat_diff)
  have lower: "1 / 2 ^ j \<le> r"
  proof -
    have "x \<le> 2 ^ j" using m(3) jb(2) by linarith
    then have "1 / r \<le> 2 ^ j" by (simp add: x_def)
    then show ?thesis using assms by (simp add: field_simps)
  qed
  have upper: "r < 1 / 2 ^ (j - 1)"
  proof -
    have "2 ^ (j - 1) < x" using m(2) jb(1) by linarith
    then have "2 ^ (j - 1) < 1 / r" by (simp add: x_def)
    then show ?thesis using assms by (simp add: field_simps)
  qed
  show ?thesis
    unfolding e1 unfolding e pow2_neg using lower upper by simp
qed

lemma roundHalfEven_nearest: "\<bar>q - of_int (roundHalfEven q)\<bar> \<le> 1 / 2"
proof -
  have "of_int \<lfloor>q\<rfloor> \<le> q" "q < of_int \<lfloor>q\<rfloor> + 1" by linarith+
  then show ?thesis
    by (auto simp: roundHalfEven_def Let_def)
qed

lemma roundToDouble_nearest:
  assumes "roundToDouble r = Fin v"
  shows "\<exists>n. v = of_int n * pow2 (max (binaryExponent \<bar>r\<bar>) (- 1022) - 52) \<and>
             \<bar>r - v\<bar> \<le> pow2 (max (binaryExponent \<bar>r\<bar>) (- 1022) - 52) / 2"
proof (cases "r = 0")
  case True
  with assms have "v = 0" by (simp add: roundToDouble_def)
  with True show ?thesis
    using pow2_pos[of "max (binaryExponent \<bar>r\<bar>) (- 1022) - 52"]
    by (intro exI[of _ 0]) simp
next
  case False
  define ulp where "ulp = pow2 (max (binaryExponent \<bar>r\<bar>) (- 1022) - 52)"
  define n where "n = roundHalfEven (\<bar>r\<bar> / ulp)"
  have ulp: "0 < ulp" by (simp add: ulp_def pow2_pos)
  have "\<bar>\<bar>r\<bar> / ulp - of_int n\<bar> \<le> 1 / 2"
    unfolding n_def by (rule roundHalfEven_nearest)
  then have "\<bar>\<bar>r\<bar> / ulp - of_int n\<bar> * ulp \<le> 1 / 2 * ulp"
    using ulp by (intro mult_right_mono) simp_all
  moreover have "(\<bar>r\<bar> / ulp - of_int n) * ulp = \<bar>r\<bar> - of_int n * ulp"
    using ulp by (simp add: field_simps)
  then have "\<bar>\<bar>r\<bar> / ulp - of_int n\<bar> * ulp = \<bar>\<bar>r\<bar> - of_int n * ulp\<bar>"
    using ulp abs_mult_pos[of ulp "\<bar>r\<bar> / ulp - of_int n"] by simp
  ultimately have near: "\<bar>\<bar>r\<bar> - of_int n * ulp\<bar> \<le> ulp / 2"
    by simp
  from assms False have v: "v = (if 0 < r then of_int n * ulp else - (of_int n * ulp))"
    by (simp add: roundToDouble_def Let_def ulp_def n_def split: if_splits)
  show ?thesis
  proof (cases "0 < r")
    case True
    with v near show ?thesis
      unfolding ulp_def[symmetric] by (intro exI[of _ n]) simp
  next
    case neg: False
    with False have r: "r < 0" by simp
    with v have "r - v = - (\<bar>r\<bar> - of_int n * ulp)" by simp
    then have "\<bar>r - v\<bar> = \<bar>\<bar>r\<bar> - of_int n * ulp\<bar>"
      by (simp only: abs_minus)
    with near have "\<bar>r - v\<bar> \<le> ulp / 2" by simp
    moreover have "v = of_int (- n) * ulp" using v r by simp
    ultimately show ?thesis
      unfolding ulp_def[symmetric] by (intro exI[of _ "- n"]) (simp only: simp_thms)
  qed
qed

text \<open>The sum of the doubles nearest to 0.1 and to 0.2 is the double above 0.3.\<close>

lemma tenth_plus_fifth:
  "roundToDouble (1 / 10) = Fin (3602879701896397 / 36028797018963968)"
  "roundToDouble (2 / 10) = Fin (3602879701896397 / 18014398509481984)"
  "js_add (Fin (3602879701896397 / 36028797018963968))
          (Fin (3602879701896397 / 18014398509481984)) =
     Fin (1351079888211149 / 4503599627370496)"
  by (simp_all add: double_eval)



subsection \<open>Resolution of accumulators\<close>

lemma foldl_resolveHabit:
  "distinct (map fst habits) \<Longrightarrow>
   map_of (foldl resolveHabit out habits) h =
     (case map_of habits h of
        None \<Rightarrow> map_of out h
      | Some acc \<Rightarrow> (case resolveOne acc of None \<Rightarrow> map_of out h | Some v \<Rightarrow> Some v))"
proof (induction habits arbitrary: out)
  case Nil
  then show ?case by simp
next
  case (Cons e habits)
  obtain k a where e: "e = (k, a)" by (cases e)
  from Cons.prems have d: "distinct (map fst habits)" and nk: "k \<notin> fst ` set habits"
    by (auto simp: e)
  have none: "map_of habits k = None" using nk by (simp add: map_of_eq_None_iff)
  show ?case
    using Cons.IH[OF d, of "resolveHabit out e"] none
    by (auto simp: e resolveHabit_def resolveOne_def update_conv' split: option.splits)
qed

lemma resolveHabits_lookup:
  "distinct (map fst habits) \<Longrightarrow>
   map_of (foldl resolveHabit [] habits) h = Option.bind (map_of habits h) resolveOne"
  by (simp add: foldl_resolveHabit split: option.splits)

lemma foldl_resolveDate:
  "distinct (map fst accs) \<Longrightarrow>
   lookup2 (foldl resolveDate outp accs) date habit =
     (case map_of accs date of
        None \<Rightarrow> lookup2 outp date habit
      | Some habits \<Rightarrow>
          if foldl resolveHabit [] habits = [] then lookup2 outp date habit
          else map_of (foldl resolveHabit [] habits) habit)"
proof (induction accs arbitrary: outp)
  case Nil
  then show ?case by simp
next
  case (Cons e accs)
  obtain k hs where e: "e = (k, hs)" by (cases e)
  from Cons.prems have d: "distinct (map fst accs)" and nk: "k \<notin> fst ` set accs"
    by (auto simp: e)
  have none: "map_of accs k = None" using nk by (simp add: map_of_eq_None_iff)
  show ?case
    using Cons.IH[OF d, of "resolveDate outp e"] none
    by (auto simp: e resolveDate_def lookup2_def update_conv' Let_def split: option.splits)
qed

lemma resolveAccumulators_lookup:
  assumes "distinct (map fst accumulators)"
    and "map_of accumulators date = Some habits"
    and "distinct (map fst habits)"
  shows "lookup2 (resolveAccumulators accumulators) date habit =
           Option.bind (map_of habits habit) resolveOne"
proof (cases "foldl resolveHabit [] habits = []")
  case True
  then have "map_of (foldl resolveHabit [] habits) habit = None" by simp
  then have "Option.bind (map_of habits habit) resolveOne = None"
    using resolveHabits_lookup[OF assms(3), of habit] by simp
  then show ?thesis
    using True assms(2)
    by (simp add: resolveAccumulators_def foldl_resolveDate[OF assms(1)])
      (simp add: lookup2_def)
next
  case False
  then show ?thesis
    using assms(2) resolveHabits_lookup[OF assms(3), of habit]
    by (simp add: resolveAccumulators_def foldl_resolveDate[OF assms(1)])
qed

text \<open>
  Claim C2. For an accumulator without a numeric token, the value that
  \<^verbatim>\<open>resolveAccumulators\<close> stores for its (date, habit) pair follows a fixed priority:
  inline true gives true whatever the other flags are; otherwise a checked checklist item
  gives true, also when an unchecked one was seen; otherwise an unchecked checklist item
  gives false; otherwise inline false gives false; and with all four flags unset the pair
  has no value in the result.
\<close>

theorem C2_boolean_priority:
  assumes "distinct (map fst accumulators)"
    and "map_of accumulators date = Some habits"
    and "distinct (map fst habits)"
    and "map_of habits habit = Some acc"
    and "\<not> hasNumeric acc"
  shows "lookup2 (resolveAccumulators accumulators) date habit =
           (if inlineTrue acc then Some (Boolean True)
            else if checklistTrue acc then Some (Boolean True)
            else if checklistFalse acc then Some (Boolean False)
            else if inlineFalse acc then Some (Boolean False)
            else None)"
  using resolveAccumulators_lookup[OF assms(1,2,3), of habit] assms(4,5)
  by (simp add: resolveOne_def resolveBoolean_def)

theorem C2_boolean_priority_witness:
  "lookup2 (resolveAccumulators
      [(''2026-02-11'',
        [(''workout'', \<lparr>numericSum = Fin 0, hasNumeric = False, inlineTrue = False,
             inlineFalse = True, checklistTrue = True, checklistFalse = True\<rparr>),
         (''read'', \<lparr>numericSum = Fin 0, hasNumeric = False, inlineTrue = False,
             inlineFalse = False, checklistTrue = False, checklistFalse = False\<rparr>)])])
      ''2026-02-11'' ''workout'' = Some (Boolean True)"
  using C2_boolean_priority[of
      "[(''2026-02-11'',
        [(''workout'', \<lparr>numericSum = Fin 0, hasNumeric = False, inlineTrue = False,
             inlineFalse = True, checklistTrue = True, checklistFalse = True\<rparr>),
         (''read'', \<lparr>numericSum = Fin 0, hasNumeric = False, inlineTrue = False,
             inlineFalse = False, checklistTrue = False, checklistFalse = False\<rparr>)])]"
      "''2026-02-11''" _ "''workout''"]
  by simp

subsection \<open>Inline tokens\<close>

lemma lookup2_update:
  "lookup2 (AList.update d m accs) d' h = (if d' = d then map_of m h else lookup2 accs d' h)"
  by (simp add: lookup2_def update_conv')

lemma accOf_getAccumulator:
  "accOf (fst (getAccumulator accs date habit)) d h = accOf accs d h"
  by (auto simp: getAccumulator_def accOf_def lookup2_update Let_def update_conv' lookup2_def
      split: option.splits)

lemma snd_getAccumulator:
  "snd (getAccumulator accs date habit) = accOf accs date (trim habit)"
  by (auto simp: getAccumulator_def accOf_def lookup2_def Let_def split: option.splits)

lemma accOf_storeAccumulator:
  "accOf (storeAccumulator accs date habit b) d h =
     (if d = date \<and> h = trim habit then b else accOf accs d h)"
  by (auto simp: storeAccumulator_def accOf_def lookup2_update Let_def update_conv' lookup2_def
      split: option.splits)

lemma dropWhile_fix: "xs = [] \<or> \<not> P (hd xs) \<Longrightarrow> dropWhile P xs = xs"
  by (cases xs) auto

lemma trim_trim: "trim (trim s) = trim s"
proof -
  define u where "u = dropWhile isSpace s"
  define t where "t = rev (dropWhile isSpace (rev u))"
  have u: "u = [] \<or> \<not> isSpace (hd u)"
    unfolding u_def by (metis hd_dropWhile)
  have "rev (takeWhile isSpace (rev u) @ dropWhile isSpace (rev u)) = rev (rev u)"
    by (simp only: takeWhile_dropWhile_id)
  then have split: "u = t @ rev (takeWhile isSpace (rev u))"
    unfolding t_def by (simp only: rev_append rev_rev_ident)
  have "t = [] \<or> \<not> isSpace (hd t)"
  proof (cases "t = []")
    case True then show ?thesis by simp
  next
    case False
    then have "hd u = hd t" using split by (metis hd_append2)
    moreover have "u \<noteq> []" using False split by auto
    ultimately show ?thesis using u by simp
  qed
  then have fr: "dropWhile isSpace t = t" by (rule dropWhile_fix)
  have bk: "dropWhile isSpace (rev t) = rev t"
    unfolding t_def by simp
  have "trim s = t" by (simp add: trim_def t_def u_def)
  moreover have "trim t = t" by (simp add: trim_def fr bk)
  ultimately show ?thesis by simp
qed

lemma accOf_inlineToken:
  assumes "trim (fst m) \<noteq> []"
  shows "accOf (inlineToken date accs m) d h =
           (if d = date \<and> h = trim (fst m)
            then applyInline (accOf accs d h) (classifyInline (snd m))
            else accOf accs d h)"
proof -
  obtain accs1 bucket where g: "getAccumulator accs date (trim (fst m)) = (accs1, bucket)"
    by (cases "getAccumulator accs date (trim (fst m))")
  have a1: "\<And>d h. accOf accs1 d h = accOf accs d h"
    using accOf_getAccumulator[of accs date "trim (fst m)"] g by simp
  have b: "bucket = accOf accs date (trim (fst m))"
    using snd_getAccumulator[of accs date "trim (fst m)"] g by (simp add: trim_trim)
  show ?thesis
    using assms
    by (simp add: inlineToken_def g Let_def accOf_storeAccumulator a1 b classifyInline_def
        trim_trim)
qed


lemma accOf_foldl_inlineToken:
  assumes "\<forall>m \<in> set ms. trim (fst m) \<noteq> []"
  shows "accOf (foldl (inlineToken date) accs ms) date h =
           foldl applyInline (accOf accs date h)
             (map (classifyInline \<circ> snd) (filter (\<lambda>m. trim (fst m) = h) ms))"
  using assms
proof (induction ms arbitrary: accs)
  case Nil
  then show ?case by simp
next
  case (Cons m ms)
  then show ?case by (auto simp: accOf_inlineToken)
qed

lemma accOf_foldl_inlineToken_other:
  assumes "\<forall>m \<in> set ms. trim (fst m) \<noteq> []" and "d \<noteq> date"
  shows "accOf (foldl (inlineToken date) accs ms) d h = accOf accs d h"
  using assms
proof (induction ms arbitrary: accs)
  case Nil
  then show ?case by simp
next
  case (Cons m ms)
  then show ?case by (auto simp: accOf_inlineToken)
qed


lemma not_space_nameChar: "isNameChar c \<Longrightarrow> \<not> isSpace c"
  by (auto simp: isNameChar_def isSpace_def)

lemma trim_name:
  assumes "list_all isNameChar n"
  shows "trim n = n"
proof -
  have a: "dropWhile isSpace n = n"
    using assms by (cases n) (auto simp: not_space_nameChar)
  have "dropWhile isSpace (rev n) = rev n"
    using assms by (cases "rev n") (auto simp: not_space_nameChar list_all_iff)
  then show ?thesis by (simp add: trim_def a)
qed

lemma matchInlineAt_name:
  "matchInlineAt s = Some (n, v, k) \<Longrightarrow> n \<noteq> [] \<and> list_all isNameChar n"
  by (auto simp: matchInlineAt_def Let_def list_all_iff split: if_splits option.splits
      dest: set_takeWhileD)

lemma scanInline_names:
  "(n, v) \<in> set (scanInline k s) \<Longrightarrow> n \<noteq> [] \<and> list_all isNameChar n"
proof (induction k s rule: scanInline.induct)
  case (1 k)
  then show ?case by simp
next
  case (2 k c cs)
  then show ?case by simp
next
  case (3 c cs)
  show ?case
  proof (cases "matchInlineAt (c # cs)")
    case None
    then show ?thesis using "3.IH" "3.prems" by simp
  next
    case (Some t)
    obtain n' v' k' where t: "t = (n', v', k')" by (cases t)
    from "3.prems" Some t
    have "(n, v) = (n', v') \<or> (n, v) \<in> set (scanInline (k' - 1) cs)"
      by simp
    then show ?thesis
    proof
      assume "(n, v) = (n', v')"
      then show ?thesis using matchInlineAt_name[of "c # cs" n' v' k'] Some t by simp
    next
      assume "(n, v) \<in> set (scanInline (k' - 1) cs)"
      then show ?thesis using "3.IH" Some t by simp
    qed
  qed
qed


lemma inlineMatches_names:
  "m \<in> set (inlineMatches line) \<Longrightarrow> trim (fst m) = fst m \<and> fst m \<noteq> []"
  using scanInline_names[of "fst m" "snd m" 0 line] by (simp add: inlineMatches_def trim_name)

lemma foldl_applyInline_fields:
  "inlineTrue (foldl applyInline a ks) = (inlineTrue a \<or> InlineTrue \<in> set ks) \<and>
   inlineFalse (foldl applyInline a ks) = (inlineFalse a \<or> InlineFalse \<in> set ks) \<and>
   hasNumeric (foldl applyInline a ks) = (hasNumeric a \<or> numbersOf ks \<noteq> []) \<and>
   numericSum (foldl applyInline a ks) = foldl js_add (numericSum a) (numbersOf ks) \<and>
   checklistTrue (foldl applyInline a ks) = checklistTrue a \<and>
   checklistFalse (foldl applyInline a ks) = checklistFalse a"
proof (induction ks arbitrary: a)
  case Nil
  then show ?case by simp
next
  case (Cons k ks)
  show ?case using Cons.IH[of "applyInline a k"] by (cases k) auto
qed

text \<open>
  Claim C3. For a line attributed to an active date, take the inline tokens of a habit,
  that is the matches of the inline pattern with that name, from left to right. The value
  of each is lower-cased and classified; a value true or yes sets the inline-true flag of
  the accumulator of the date and habit, false or no sets its inline-false flag, every
  other value that reads as a finite number is added to the numeric sum (and marks the
  accumulator numeric), and a value that does not read as a finite number changes
  nothing. The checklist flags stay as they were. The numbers are doubles and the sum is
  the sum of doubles, taken from left to right: \<open>0.1\<close> and \<open>0.2\<close> on one line give
  \<open>0.30000000000000004\<close>, as the second line of the example below shows.
\<close>

theorem C3_inline_tokens:
  "inlineTrue (accOf (extractInlineTokens line date accs) date h) =
     (inlineTrue (accOf accs date h)
      \<or> InlineTrue \<in> set (map (classifyInline \<circ> snd)
                          (filter (\<lambda>m. fst m = h) (inlineMatches line)))) \<and>
   inlineFalse (accOf (extractInlineTokens line date accs) date h) =
     (inlineFalse (accOf accs date h)
      \<or> InlineFalse \<in> set (map (classifyInline \<circ> snd)
                           (filter (\<lambda>m. fst m = h) (inlineMatches line)))) \<and>
   hasNumeric (accOf (extractInlineTokens line date accs) date h) =
     (hasNumeric (accOf accs date h)
      \<or> numbersOf (map (classifyInline \<circ> snd)
                      (filter (\<lambda>m. fst m = h) (inlineMatches line))) \<noteq> []) \<and>
   numericSum (accOf (extractInlineTokens line date accs) date h) =
     foldl js_add (numericSum (accOf accs date h))
       (numbersOf (map (classifyInline \<circ> snd)
                     (filter (\<lambda>m. fst m = h) (inlineMatches line)))) \<and>
   checklistTrue (accOf (extractInlineTokens line date accs) date h) =
     checklistTrue (accOf accs date h) \<and>
   checklistFalse (accOf (extractInlineTokens line date accs) date h) =
     checklistFalse (accOf accs date h)"
proof -
  have names: "\<forall>m \<in> set (inlineMatches line). trim (fst m) \<noteq> []"
    using inlineMatches_names by auto
  have same: "filter (\<lambda>m. trim (fst m) = h) (inlineMatches line) =
              filter (\<lambda>m. fst m = h) (inlineMatches line)"
    by (rule filter_cong) (auto simp: inlineMatches_names)
  have "accOf (extractInlineTokens line date accs) date h =
          foldl applyInline (accOf accs date h)
            (map (classifyInline \<circ> snd) (filter (\<lambda>m. fst m = h) (inlineMatches line)))"
    unfolding extractInlineTokens_def
    using accOf_foldl_inlineToken[OF names, of date accs h] same by simp
  then show ?thesis
    using foldl_applyInline_fields by simp
qed

theorem C3_inline_tokens_witness:
  "numericSum (accOf (extractInlineTokens ''habit-run::20, habit-run::15.5 habit-run::yes''
      ''2026-02-10'' []) ''2026-02-10'' ''run'') = Fin (71 / 2) \<and>
   hasNumeric (accOf (extractInlineTokens ''habit-run::20, habit-run::15.5 habit-run::yes''
      ''2026-02-10'' []) ''2026-02-10'' ''run'') \<and>
   inlineTrue (accOf (extractInlineTokens ''habit-run::20, habit-run::15.5 habit-run::yes''
      ''2026-02-10'' []) ''2026-02-10'' ''run'') \<and>
   \<not> inlineFalse (accOf (extractInlineTokens ''habit-run::20, habit-run::15.5 habit-run::yes''
      ''2026-02-10'' []) ''2026-02-10'' ''run'') \<and>
   numericSum (accOf (extractInlineTokens ''habit-a::0.1 habit-a::0.2'' ''2026-02-10'' [])
      ''2026-02-10'' ''a'') = Fin (1351079888211149 / 4503599627370496)"
proof -
  have ms: "inlineMatches ''habit-run::20, habit-run::15.5 habit-run::yes'' =
      [(''run'', ''20''), (''run'', ''15.5''), (''run'', ''yes'')]"
    "inlineMatches ''habit-a::0.1 habit-a::0.2'' = [(''a'', ''0.1''), (''a'', ''0.2'')]"
    by (simp_all add: inline_eval)
  have ks: "classifyInline ''20'' = InlineNumber (Fin 20)"
    "classifyInline ''15.5'' = InlineNumber (Fin (31 / 2))"
    "classifyInline ''yes'' = InlineTrue"
    "classifyInline ''0.1'' = InlineNumber (Fin (3602879701896397 / 36028797018963968))"
    "classifyInline ''0.2'' = InlineNumber (Fin (3602879701896397 / 18014398509481984))"
    by (simp_all add: classifyInline_def number_eval)
  have a0: "accOf [] ''2026-02-10'' ''run'' = newAccumulator"
    "accOf [] ''2026-02-10'' ''a'' = newAccumulator"
    by (simp_all add: accOf_def lookup2_def)
  show ?thesis
    using C3_inline_tokens[of "''habit-run::20, habit-run::15.5 habit-run::yes''"
        "''2026-02-10''" "[]" "''run''"]
      C3_inline_tokens[of "''habit-a::0.1 habit-a::0.2''" "''2026-02-10''" "[]" "''a''"]
    by (simp add: ms ks a0 newAccumulator_def double_eval)
qed

subsection \<open>The example journal\<close>

lemmas checklist_eval =
  extractChecklistTokens_def matchChecklist_def matchChecklistHabitAt_def
  checklistHabitMatches_def scanChecklist_numeral checklistToken_def startsWith_def isSpace_def
  isLineTerminator_def isNameChar_def

lemmas token_eval =
  extractInlineTokens_def inlineToken_def getAccumulator_def storeAccumulator_def
  newAccumulator_def

lemmas heading_eval = parseDateHeading_def matchDateHeading_def headingToIso_def isSpace_def

lemmas resolve_eval = resolveAccumulators_def resolveDate_def resolveHabit_def resolveBoolean_def

lemmas parse_eval =
  parseMarkdownHabits_def parseLine_def heading_eval iso_eval date_eval zone_eval inline_eval
  number_eval token_eval checklist_eval resolve_eval

lemma exampleParse:
  "parseMarkdownHabits utcZone exampleFile exampleContent =
     \<lparr>pfile = exampleFile,
      valuesByDateHabit =
        [(''2026-02-10'', [(''workout'', Numeric (Fin 20))]),
         (''2026-03-30'', [(''read'', Boolean True)])],
      headingLinesByDate = [(''2026-02-10'', [1]), (''2026-03-30'', [3])]\<rparr>"
  by (simp add: exampleContent_def parse_eval)

lemma exampleGet:
  "fst (getParsedFile utcZone exampleScanner exampleFile) =
     parseMarkdownHabits utcZone exampleFile exampleContent"
  by (simp add: getParsedFile_def readAndParse_def exampleScanner_def Let_def)

lemma exampleFiles: "getFilesForRange exampleScanner exampleFile Week = [exampleFile]"
  by (simp add: getFilesForRange_def shouldIgnoreFile_def exampleFile_def toLowerCase_def
      lowerChar_def)

subsection \<open>The habits that a scan finds\<close>

lemma set_setAdd: "set (setAdd x xs) = insert x (set xs)"
  by (auto simp: setAdd_def)

lemma found_addValue: "set (found (addValue date st e)) = insert (fst e) (set (found st))"
  by (cases e) (simp add: addValue_def Let_def set_setAdd)

lemma scanner_addValue: "scanner (addValue date st e) = scanner st"
  by (cases e) (simp add: addValue_def Let_def)

lemma found_foldl_addValue:
  "set (found (foldl (addValue date) st hv)) = set (found st) \<union> fst ` set hv"
  by (induction hv arbitrary: st) (auto simp: found_addValue)

lemma scanner_foldl_addValue: "scanner (foldl (addValue date) st hv) = scanner st"
  by (induction hv arbitrary: st) (auto simp: scanner_addValue)

lemma found_addValues:
  "set (found (addValues ds st e)) =
     set (found st) \<union> (if fst e \<in> set ds then fst ` set (snd e) else {})"
  by (cases e) (simp add: addValues_def found_foldl_addValue)

lemma scanner_addValues: "scanner (addValues ds st e) = scanner st"
  by (cases e) (simp add: addValues_def scanner_foldl_addValue)

lemma found_foldl_addValues:
  "set (found (foldl (addValues ds) st vs)) =
     set (found st) \<union>
     set (concat (map (\<lambda>e. map fst (snd e)) (filter (\<lambda>e. fst e \<in> set ds) vs)))"
  by (induction vs arbitrary: st) (auto simp: found_addValues)

lemma scanner_foldl_addValues: "scanner (foldl (addValues ds) st vs) = scanner st"
  by (induction vs arbitrary: st) (auto simp: scanner_addValues)

lemma found_scanFile:
  "set (found (scanFile tz ds st f)) =
     set (found st) \<union> set (habitsInRange ds (fst (getParsedFile tz (scanner st) f)))"
  by (cases "getParsedFile tz (scanner st) f")
     (simp add: scanFile_def found_foldl_addValues habitsInRange_def)

lemma scanner_scanFile:
  "scanner (scanFile tz ds st f) = snd (getParsedFile tz (scanner st) f)"
  by (cases "getParsedFile tz (scanner st) f")
     (simp add: scanFile_def scanner_foldl_addValues)

lemma found_foldl_scanFile:
  "set (found (foldl (scanFile tz ds) st fs)) =
     set (found st) \<union>
     set (concat (map (habitsInRange ds) (parsedFiles tz (scanner st) fs)))"
proof (induction fs arbitrary: st)
  case Nil
  then show ?case by simp
next
  case (Cons f fs)
  show ?case
    using Cons.IH[of "scanFile tz ds st f"]
    by (auto simp: found_scanFile scanner_scanFile)
qed

text \<open>
  Claim C1, as amended. The habit names that a scan reports in \<^verbatim>\<open>habitsFound\<close> are
  exactly the names that the value map of some scanned document holds under a date of the
  requested range. (A name whose dates all lie outside the range is not reported: the
  name is added after the test of the date, inside the loop over the dates in range.)
\<close>

theorem C1_habits_found_in_range:
  "set (habitsFound (fst (scan tz sc currentFile rng))) =
     set (concat (map (habitsInRange (dates rng))
            (parsedFiles tz sc (getFilesForRange sc currentFile (rangeType rng)))))"
  by (simp add: scan_def Let_def found_foldl_scanFile)

theorem C1_habits_found_in_range_witness:
  "set (habitsFound (fst (scan utcZone exampleScanner exampleFile exampleWeek))) = {''workout''}"
  using C1_habits_found_in_range[of utcZone exampleScanner exampleFile exampleWeek]
  by (simp add: exampleWeek_def exampleFiles exampleGet exampleParse habitsInRange_def)

text \<open>
  The claim as it was stated fails: the week journal is the one document scanned, its value
  map holds the habit \<open>read\<close> (under 2026-03-30, outside the week), and the scan does not
  report it.
\<close>

theorem C1_all_habits_counterexample:
  "parsedFiles utcZone exampleScanner
     (getFilesForRange exampleScanner exampleFile (rangeType exampleWeek))
     = [parseMarkdownHabits utcZone exampleFile exampleContent] \<and>
   ''read'' \<in> set (habitsOfParsed (parseMarkdownHabits utcZone exampleFile exampleContent)) \<and>
   ''read'' \<notin> set (habitsFound (fst (scan utcZone exampleScanner exampleFile exampleWeek)))"
  by (simp add: scan_def Let_def found_scanFile exampleWeek_def exampleFiles exampleGet
      exampleParse habitsInRange_def habitsOfParsed_def)

subsection \<open>The parse cache\<close>

lemma getParsedFile_hit:
  "map_of (cache sc) (path f) = Some e \<Longrightarrow> entryMtime e = mtime f \<Longrightarrow>
   getParsedFile tz sc f = (parsed e, sc)"
  by (simp add: getParsedFile_def)

lemma getParsedFile_miss:
  "(\<And>e. map_of (cache sc) (path f) = Some e \<Longrightarrow> entryMtime e \<noteq> mtime f) \<Longrightarrow>
   getParsedFile tz sc f = readAndParse tz sc f"
  by (auto simp: getParsedFile_def split: option.splits)

lemma readAndParse_result:
  "fst (readAndParse tz sc f) = parseMarkdownHabits tz f (contentOf (app sc) f)"
  "readLog (app (snd (readAndParse tz sc f))) = readLog (app sc) @ [f]"
  "map_of (cache (snd (readAndParse tz sc f))) (path f) =
     Some \<lparr>entryMtime = mtime f, parsed = parseMarkdownHabits tz f (contentOf (app sc) f)\<rparr>"
  by (simp_all add: readAndParse_def Let_def update_conv')

lemma getParsedFile_stores:
  "\<exists>e. map_of (cache (snd (getParsedFile tz sc f))) (path f) = Some e
       \<and> entryMtime e = mtime f \<and> parsed e = fst (getParsedFile tz sc f)"
  by (auto simp: getParsedFile_def readAndParse_def Let_def update_conv' split: option.splits)

lemma getParsedFile_twice:
  "getParsedFile tz ((snd (getParsedFile tz sc f))\<lparr>app := vault\<rparr>) f =
     (fst (getParsedFile tz sc f), (snd (getParsedFile tz sc f))\<lparr>app := vault\<rparr>)"
proof -
  obtain e where e: "map_of (cache (snd (getParsedFile tz sc f))) (path f) = Some e"
    "entryMtime e = mtime f" "parsed e = fst (getParsedFile tz sc f)"
    using getParsedFile_stores by blast
  show ?thesis
    using getParsedFile_hit[of "(snd (getParsedFile tz sc f))\<lparr>app := vault\<rparr>" f e tz] e
    by simp
qed

lemma getParsedFile_reads_iff:
  "(readLog (app (snd (getParsedFile tz sc f))) = readLog (app sc)) =
     (\<exists>e. map_of (cache sc) (path f) = Some e \<and> entryMtime e = mtime f)"
  by (auto simp: getParsedFile_def readAndParse_def Let_def split: option.splits)

lemma cache_invalidatePath: "map_of (cache (invalidatePath sc p)) p = None"
  by (simp add: invalidatePath_def delete_conv')

text \<open>
  Claim C9. A call of \<^verbatim>\<open>getParsedFile\<close> whose file has an entry with the file's
  modification time returns the stored parse result and changes nothing: it reads nothing
  and stores nothing. A second call for the same file, with the same modification time and
  no invalidation between the two, returns the result of the first, whatever the vault
  holds by then. A call reads the file if and only if the cache has no entry for its path
  whose time is the file's modification time. After \<^verbatim>\<open>invalidatePath\<close> for the path, or
  with an entry of another time, the call reads the file, parses what it read and stores
  the result with the file's modification time, whether the content has changed or not.
\<close>

theorem C9_cache_coherence:
  "(\<forall>e. map_of (cache sc) (path f) = Some e \<and> entryMtime e = mtime f \<longrightarrow>
        getParsedFile tz sc f = (parsed e, sc)) \<and>
   (\<forall>vault. getParsedFile tz ((snd (getParsedFile tz sc f))\<lparr>app := vault\<rparr>) f =
        (fst (getParsedFile tz sc f), (snd (getParsedFile tz sc f))\<lparr>app := vault\<rparr>)) \<and>
   ((readLog (app (snd (getParsedFile tz sc f))) = readLog (app sc)) =
        (\<exists>e. map_of (cache sc) (path f) = Some e \<and> entryMtime e = mtime f)) \<and>
   getParsedFile tz (invalidatePath sc (path f)) f =
        readAndParse tz (invalidatePath sc (path f)) f \<and>
   ((\<forall>e. map_of (cache sc) (path f) = Some e \<longrightarrow> entryMtime e \<noteq> mtime f) \<longrightarrow>
        getParsedFile tz sc f = readAndParse tz sc f) \<and>
   fst (readAndParse tz sc f) = parseMarkdownHabits tz f (contentOf (app sc) f) \<and>
   readLog (app (snd (readAndParse tz sc f))) = readLog (app sc) @ [f] \<and>
   map_of (cache (snd (readAndParse tz sc f))) (path f) =
        Some \<lparr>entryMtime = mtime f,
              parsed = parseMarkdownHabits tz f (contentOf (app sc) f)\<rparr>"
proof -
  have inv: "getParsedFile tz (invalidatePath sc (path f)) f =
      readAndParse tz (invalidatePath sc (path f)) f"
    by (rule getParsedFile_miss) (simp add: cache_invalidatePath)
  have miss: "(\<forall>e. map_of (cache sc) (path f) = Some e \<longrightarrow> entryMtime e \<noteq> mtime f) \<longrightarrow>
      getParsedFile tz sc f = readAndParse tz sc f"
    using getParsedFile_miss by blast
  have hit: "\<forall>e. map_of (cache sc) (path f) = Some e \<and> entryMtime e = mtime f \<longrightarrow>
      getParsedFile tz sc f = (parsed e, sc)"
    using getParsedFile_hit by blast
  have twice: "\<forall>vault. getParsedFile tz ((snd (getParsedFile tz sc f))\<lparr>app := vault\<rparr>) f =
      (fst (getParsedFile tz sc f), (snd (getParsedFile tz sc f))\<lparr>app := vault\<rparr>)"
    using getParsedFile_twice by blast
  show ?thesis
    by (intro conjI hit twice getParsedFile_reads_iff inv miss readAndParse_result)
qed

theorem C9_cache_coherence_witness:
  "getParsedFile utcZone
     \<lparr>app = \<lparr>markdownFiles = [exampleFile], contentOf = (\<lambda>f. ''habit-x::1''), readLog = []\<rparr>,
      cache = [(path exampleFile,
                \<lparr>entryMtime = 1,
                   parsed = parseMarkdownHabits utcZone exampleFile exampleContent\<rparr>)]\<rparr>
     exampleFile =
   (parseMarkdownHabits utcZone exampleFile exampleContent,
    \<lparr>app = \<lparr>markdownFiles = [exampleFile], contentOf = (\<lambda>f. ''habit-x::1''), readLog = []\<rparr>,
      cache = [(path exampleFile,
                \<lparr>entryMtime = 1,
                   parsed = parseMarkdownHabits utcZone exampleFile exampleContent\<rparr>)]\<rparr>) \<and>
   readLog (app (snd (getParsedFile utcZone (invalidatePath exampleScanner (path exampleFile))
      exampleFile))) = [exampleFile]"
proof -
  let ?e = "\<lparr>entryMtime = 1, parsed = parseMarkdownHabits utcZone exampleFile exampleContent\<rparr>"
  let ?sc = "\<lparr>app = \<lparr>markdownFiles = [exampleFile], contentOf = (\<lambda>f. ''habit-x::1''),
                      readLog = []\<rparr>,
               cache = [(path exampleFile, ?e)]\<rparr>"
  have hit: "map_of (cache ?sc) (path exampleFile) = Some ?e \<and> entryMtime ?e = mtime exampleFile"
    by (simp add: exampleFile_def)
  have a: "getParsedFile utcZone ?sc exampleFile = (parsed ?e, ?sc)"
    using C9_cache_coherence[where sc = ?sc and f = exampleFile and tz = utcZone] hit by blast
  have b1: "getParsedFile utcZone (invalidatePath exampleScanner (path exampleFile)) exampleFile =
      readAndParse utcZone (invalidatePath exampleScanner (path exampleFile)) exampleFile"
    using C9_cache_coherence[where sc = exampleScanner and f = exampleFile and tz = utcZone]
    by blast
  have b2: "readLog (app (snd (readAndParse utcZone
      (invalidatePath exampleScanner (path exampleFile)) exampleFile))) =
      readLog (app (invalidatePath exampleScanner (path exampleFile))) @ [exampleFile]"
    using C9_cache_coherence[where sc = "invalidatePath exampleScanner (path exampleFile)"
        and f = exampleFile and tz = utcZone]
    by blast
  have b: "readLog (app (snd (getParsedFile utcZone
      (invalidatePath exampleScanner (path exampleFile)) exampleFile))) =
      readLog (app (invalidatePath exampleScanner (path exampleFile))) @ [exampleFile]"
    using b1 b2 by simp
  show ?thesis
    using a b by (simp add: invalidatePath_def exampleScanner_def)
qed

subsection \<open>Thresholds\<close>

lemma thresholdEntry_thresholdOf:
  "thresholdEntry out entry = out @ (case thresholdOf entry of Some t \<Rightarrow> [t] | None \<Rightarrow> [])"
  by (auto simp: thresholdEntry_def thresholdOf_def keepsEntry_def
      split: jsval.splits option.splits)

lemma foldl_thresholdEntry:
  "foldl thresholdEntry out input = out @ List.map_filter thresholdOf input"
  by (induction input arbitrary: out)
     (auto simp: thresholdEntry_thresholdOf List.map_filter_simps split: option.splits)

lemma thresholdOf_None_iff: "(thresholdOf entry = None) = (\<not> keepsEntry entry)"
  by (cases "getProp entry ''color''"; cases "getProp entry ''le''"; cases "getProp entry ''gt''")
     (auto simp: thresholdOf_def keepsEntry_def)

text \<open>
  Claim C5, as amended. \<^verbatim>\<open>normalizeThresholds\<close> keeps, in the order of the input, the
  entries that are objects with a color text that holds more than white space and with a
  number under \<open>le\<close> or under \<open>gt\<close> (an entry with both is kept as a \<open>le\<close> threshold),
  and drops every other entry without an error. When nothing is kept, it adds exactly one
  error to the list and gives the built-in thresholds.
\<close>

theorem C5_thresholds:
  "normalizeThresholds input errors =
     (if filter keepsEntry input = []
      then (thresholds (cfgColors DEFAULT_CONFIG),
            errors @ [''colors.numeric.thresholds must include at least one valid threshold''])
      else (map (the \<circ> thresholdOf) (filter keepsEntry input), errors)) \<and>
   (thresholdOf entry = None) = (\<not> keepsEntry entry)"
proof -
  have "filter (\<lambda>e. thresholdOf e \<noteq> None) input = filter keepsEntry input"
    by (rule filter_cong) (simp_all add: thresholdOf_None_iff)
  then have "List.map_filter thresholdOf input =
      map (the \<circ> thresholdOf) (filter keepsEntry input)"
    by (simp add: List.map_filter_def)
  then show ?thesis
    by (simp add: normalizeThresholds_def Let_def foldl_thresholdEntry thresholdOf_None_iff)
qed

theorem C5_thresholds_witness:
  "normalizeThresholds
     [JObj [(''color'', JStr ''red''), (''le'', JNum (Fin 1))], JNull,
      JObj [(''color'', JStr ''  ''), (''gt'', JNum (Fin 2))],
      JObj [(''color'', JStr ''blue''), (''gt'', JNum (Fin 5))]] [] =
     ([Le (Fin 1) ''red'', Gt (Fin 5) ''blue''], []) \<and>
   normalizeThresholds [JStr ''red'', JObj [(''color'', JStr ''red'')]] [] =
     (thresholds (cfgColors DEFAULT_CONFIG),
      [''colors.numeric.thresholds must include at least one valid threshold'']) \<and>
   normalizeThresholds [JObj [(''color'', JStr [CHR 0xA0]), (''le'', JNum (Fin 1))]] [] =
     (thresholds (cfgColors DEFAULT_CONFIG),
      [''colors.numeric.thresholds must include at least one valid threshold''])"
  using C5_thresholds[of "[JObj [(''color'', JStr ''red''), (''le'', JNum (Fin 1))], JNull,
      JObj [(''color'', JStr ''  ''), (''gt'', JNum (Fin 2))],
      JObj [(''color'', JStr ''blue''), (''gt'', JNum (Fin 5))]]" "[]"]
    C5_thresholds[of "[JStr ''red'', JObj [(''color'', JStr ''red'')]]" "[]"]
    C5_thresholds[of "[JObj [(''color'', JStr [CHR 0xA0]), (''le'', JNum (Fin 1))]]" "[]"]
  by (simp add: thresholdOf_def keepsEntry_def trim_def isSpace_def)

text \<open>
  The claim as it was stated fails: an entry with a color and with numbers under both
  \<open>le\<close> and \<open>gt\<close> does not supply exactly one bound, and it is kept.
\<close>

theorem C5_both_bounds_counterexample:
  "\<not> suppliesExactlyOneBound
       (JObj [(''color'', JStr ''red''), (''le'', JNum (Fin 1)), (''gt'', JNum (Fin 2))]) \<and>
   normalizeThresholds
     [JObj [(''color'', JStr ''red''), (''le'', JNum (Fin 1)), (''gt'', JNum (Fin 2))]] [] =
     ([Le (Fin 1) ''red''], [])"
  by (simp add: suppliesExactlyOneBound_def normalizeThresholds_def thresholdEntry_def trim_def
      isSpace_def)

subsection \<open>Cell size and gap\<close>

lemma of_int_le_rat: "((of_int a :: rat) \<le> of_int b) = (a \<le> b)"
  by simp

lemma clampNumber_clampedSize:
  assumes "lo \<le> hi"
  shows "clampNumber v (Fin (of_int lo)) (Fin (of_int hi)) fallback = clampedSize lo hi fallback v"
proof (cases v)
  case (JNum n)
  show ?thesis
  proof (cases n)
    case (Fin r)
    show ?thesis
      using assms
      by (auto simp: JNum Fin clampNumber_def js_min_def js_max_def max_def min_def)
  next
    case PosInf
    then show ?thesis using assms by (simp add: JNum clampNumber_def js_min_def js_max_def)
  next
    case NegInf
    then show ?thesis using assms by (simp add: JNum clampNumber_def js_min_def js_max_def)
  next
    case NaN
    then show ?thesis by (simp add: JNum clampNumber_def)
  qed
qed (simp_all add: clampNumber_def)

lemma errorsOf_normalizeConfig_display:
  "errorsOf (normalizeConfig (input\<lparr>inDisplay := d\<rparr>)) = errorsOf (normalizeConfig input)"
  by (simp add: normalizeConfig_def errorsOf_def Let_def buildConfig_def)

text \<open>
  Claim C4, as amended. Normalization never reports an error for the cell size or the gap:
  the error list is the same whatever the display part of the raw configuration holds. In
  a normalized configuration the cell size is the raw cell size rounded to the nearest
  integer and moved into 6 to 30, and the gap is the raw gap rounded and moved into 0 to
  8; a number outside the bounds gives the nearest bound; only a value that is absent, NaN
  or no number gives the default, 12 for the cell size and 2 for the gap.
\<close>

theorem C4_cell_size_and_gap:
  "errorsOf (normalizeConfig (input\<lparr>inDisplay := d\<rparr>)) = errorsOf (normalizeConfig input) \<and>
   (\<forall>config. normalizeConfig input = Inr config \<longrightarrow>
      cellSize (cfgDisplay config) =
        clampedSize 6 30 (Fin 12) (field (inDisplay input) rawCellSize) \<and>
      gap (cfgDisplay config) = clampedSize 0 8 (Fin 2) (field (inDisplay input) rawGap))"
proof -
  have c: "clampNumber v (Fin 6) (Fin 30) fallback = clampedSize 6 30 fallback v" for v fallback
    using clampNumber_clampedSize[of 6 30 v fallback] by simp
  have g: "clampNumber v (Fin 0) (Fin 8) fallback = clampedSize 0 8 fallback v" for v fallback
    using clampNumber_clampedSize[of 0 8 v fallback] by simp
  have "normalizeConfig input = Inr config \<Longrightarrow>
      cellSize (cfgDisplay config) =
        clampedSize 6 30 (Fin 12) (field (inDisplay input) rawCellSize) \<and>
      gap (cfgDisplay config) = clampedSize 0 8 (Fin 2) (field (inDisplay input) rawGap)"
    for config
    by (auto simp: normalizeConfig_def Let_def buildConfig_def c g DEFAULT_CONFIG_def
        split: if_splits)
  then show ?thesis
    using errorsOf_normalizeConfig_display by blast
qed

lemma exampleRawConfig_normal:
  "normalizeConfig exampleRawConfig =
     Inr (buildConfig exampleRawConfig (thresholds (cfgColors DEFAULT_CONFIG)) (JStr ''auto'') [])"
  by (simp add: normalizeConfig_def exampleRawConfig_def Let_def fieldOr_def field_def nullish_def
      habitErrors_def DEFAULT_CONFIG_def buildConfig_def)

theorem C4_cell_size_and_gap_witness:
  "(case normalizeConfig exampleRawConfig of
      Inl errors \<Rightarrow> None
    | Inr config \<Rightarrow> Some (cellSize (cfgDisplay config), gap (cfgDisplay config))) =
   Some (Fin 30, Fin 2)"
  using C4_cell_size_and_gap[where input = exampleRawConfig]
  by (simp add: exampleRawConfig_normal) (simp add: exampleRawConfig_def field_def)

text \<open>
  The claim as it was stated fails: a cell size of 100 is out of range, and normalization
  gives 30, not the default.
\<close>

theorem C4_out_of_range_counterexample:
  "(case normalizeConfig exampleRawConfig of
      Inl errors \<Rightarrow> None
    | Inr config \<Rightarrow> Some (cellSize (cfgDisplay config))) = Some (Fin 30) \<and>
   cellSize (cfgDisplay DEFAULT_CONFIG) = Fin 12"
  by (simp add: exampleRawConfig_normal)
     (simp add: buildConfig_def exampleRawConfig_def field_def clampNumber_def js_min_def
       js_max_def DEFAULT_CONFIG_def)

subsection \<open>Range resolution\<close>

lemma length_enumerateLoop: "length (enumerateLoop tz start i n) = nat (n - i)"
proof (induction tz start i n rule: enumerateLoop.induct)
  case (1 tz start i n)
  show ?case
  proof (cases "i < n")
    case True
    then show ?thesis using 1 by (simp add: enumerateLoop_step nat_diff_distrib')
  next
    case False
    then show ?thesis by (simp add: enumerateLoop_stop)
  qed
qed

lemma last_enumerateLoop:
  "i < n \<Longrightarrow> last (enumerateLoop tz start i n) = toIsoDate tz (addDays tz start (n - 1))"
proof (induction tz start i n rule: enumerateLoop.induct)
  case (1 tz start i n)
  show ?case
  proof (cases "i + 1 < n")
    case True
    then have "enumerateLoop tz start (i + 1) n \<noteq> []"
      by (simp add: enumerateLoop_step)
    then show ?thesis using 1 True by (simp add: enumerateLoop_step)
  next
    case False
    then have "n = i + 1" using "1.prems" by simp
    then show ?thesis by (simp add: enumerateLoop_step enumerateLoop_stop)
  qed
qed

text \<open>What holds of the week branch on every host.\<close>

lemma resolveWeek_without_fromTitle:
  "rangeTypeOf (cfgRange config) = JStr ''week'' \<Longrightarrow> fromTitle (cfgRange config) \<noteq> JBool True \<Longrightarrow>
   resolveRange tz config f = Inl [''week range requires range.fromTitle=true'']"
  by (simp add: resolveRange_def resolveWeek_def)

lemma resolveWeek_title_mismatch:
  "rangeTypeOf (cfgRange config) = JStr ''week'' \<Longrightarrow> fromTitle (cfgRange config) = JBool True \<Longrightarrow>
   matchWeekTitle (basename f) = None \<Longrightarrow>
   resolveRange tz config f = Inl [''week note title must match YYYY.MM.dd - YYYY.MM.dd'']"
  by (simp add: resolveRange_def resolveWeek_def)

lemma resolveWeek_invalid_date:
  "rangeTypeOf (cfgRange config) = JStr ''week'' \<Longrightarrow> fromTitle (cfgRange config) = JBool True \<Longrightarrow>
   matchWeekTitle (basename f) = Some (a, b) \<Longrightarrow>
   normalizeIsoDate tz (headingToIso a) = None \<or> normalizeIsoDate tz (headingToIso b) = None \<Longrightarrow>
   resolveRange tz config f = Inl [''week note title contains invalid date'']"
  by (auto simp: resolveRange_def resolveWeek_def split: option.splits)

lemma resolveWeek_count:
  "rangeTypeOf (cfgRange config) = JStr ''week'' \<Longrightarrow> fromTitle (cfgRange config) = JBool True \<Longrightarrow>
   matchWeekTitle (basename f) = Some (a, b) \<Longrightarrow>
   normalizeIsoDate tz (headingToIso a) = Some start \<Longrightarrow>
   normalizeIsoDate tz (headingToIso b) = Some end \<Longrightarrow>
   resolveRange tz config f =
     (if length (enumerateDates tz start end) \<noteq> 7
      then Inl [''week range must include exactly 7 dates, found ''
                  @ showNat (length (enumerateDates tz start end))]
      else Inr \<lparr>rangeType = Week, startDate = start, endDate = end,
                 dates = enumerateDates tz start end\<rparr>)"
  by (simp add: resolveRange_def resolveWeek_def Let_def)

lemma resolveRange_week_seven:
  "rangeTypeOf (cfgRange config) = JStr ''week'' \<Longrightarrow> resolveRange tz config f = Inr r \<Longrightarrow>
   length (dates r) = 7 \<and> rangeType r = Week"
  by (auto simp: resolveRange_def resolveWeek_def Let_def split: if_splits option.splits)

lemmas title_eval = matchWeekTitle_def headingToIso_def isSpace_def startsWith_def

lemma marchWeek_title:
  "matchWeekTitle (basename marchWeekFile) = Some (''2024.03.09'', ''2024.03.16'')"
  by (simp add: marchWeekFile_def title_eval iso_eval)

lemma marchWeek_dates:
  "normalizeIsoDate newYork2024 ''2024-03-09'' = Some ''2024-03-09''"
  "normalizeIsoDate newYork2024 ''2024-03-16'' = Some ''2024-03-16''"
  by (simp_all add: iso_eval date_eval zone_eval)

lemma marchWeek_enumerate:
  "enumerateDates newYork2024 ''2024-03-09'' ''2024-03-16'' =
     [''2024-03-09'', ''2024-03-10'', ''2024-03-11'', ''2024-03-12'', ''2024-03-13'',
      ''2024-03-14'', ''2024-03-15'']"
  by (simp add: iso_eval date_eval show_eval zone_eval)

text \<open>
  Claim C6 on a host in the time zone of New York. The title 2024.03.09 - 2024.03.16 spans
  eight days, both dates are valid and \<^verbatim>\<open>fromTitle\<close> is true, and the resolution
  succeeds: between the two local midnights lie seven days less one hour, which
  \<^verbatim>\<open>dayDiffInclusive\<close> rounds down to six before it adds one. The range that comes back
  ends on 2024-03-16 and lists the seven dates up to 2024-03-15.
\<close>

theorem C6_eight_day_title_accepted:
  "resolveRange newYork2024 DEFAULT_CONFIG marchWeekFile =
     Inr \<lparr>rangeType = Week, startDate = ''2024-03-09'', endDate = ''2024-03-16'',
          dates = [''2024-03-09'', ''2024-03-10'', ''2024-03-11'', ''2024-03-12'',
                   ''2024-03-13'', ''2024-03-14'', ''2024-03-15'']\<rparr>"
proof -
  have "resolveRange newYork2024 DEFAULT_CONFIG marchWeekFile =
      (if length (enumerateDates newYork2024 ''2024-03-09'' ''2024-03-16'') \<noteq> 7
       then Inl [''week range must include exactly 7 dates, found ''
                   @ showNat (length (enumerateDates newYork2024 ''2024-03-09'' ''2024-03-16''))]
       else Inr \<lparr>rangeType = Week, startDate = ''2024-03-09'', endDate = ''2024-03-16'',
                  dates = enumerateDates newYork2024 ''2024-03-09'' ''2024-03-16''\<rparr>)"
    by (rule resolveWeek_count[where a = "''2024.03.09''" and b = "''2024.03.16''"])
       (simp_all add: DEFAULT_CONFIG_def marchWeek_title marchWeek_dates headingToIso_def)
  then show ?thesis by (simp add: marchWeek_enumerate)
qed

lemma march_bounds:
  "parseIsoDate newYork2024 ''2024-03-01'' = Some 1709269200000"
  "parseIsoDate newYork2024 ''2024-03-31'' = Some 1711857600000"
  by (simp_all add: iso_eval date_eval zone_eval)

lemma march_count: "dayDiffInclusive newYork2024 1709269200000 1711857600000 = 30"
  by (simp add: date_eval zone_eval)

lemma march_last: "toIsoDate newYork2024 (addDays newYork2024 1709269200000 29) = ''2024-03-30''"
  by (simp add: date_eval show_eval zone_eval)

lemma march_end: "toIsoDate newYork2024 (newDate newYork2024 2024 3 0) = ''2024-03-31''"
  by (simp add: date_eval show_eval zone_eval)

lemma march_enumerate:
  "enumerateDates newYork2024 ''2024-03-01'' ''2024-03-31'' =
     enumerateLoop newYork2024 1709269200000 0 30"
  by (simp add: enumerateDates_def march_bounds march_count getTime_def)

text \<open>
  Claim C7 on a host in the time zone of New York. The month range of March 2024 resolves
  to a range from 2024-03-01 to 2024-03-31 whose list of dates has 30 entries and ends
  with 2024-03-30: the last day of the month is missing, for the reason given with the
  week above.
\<close>

theorem C7_march_loses_a_day:
  "(case resolveRange newYork2024 marchConfig exampleFile of
      Inl errors \<Rightarrow> None
    | Inr r \<Rightarrow> Some (rangeType r, startDate r, endDate r, length (dates r), last (dates r))) =
   Some (Month, ''2024-03-01'', ''2024-03-31'', 30, ''2024-03-30'')"
proof -
  have cfg: "rangeTypeOf (cfgRange marchConfig) = JStr ''month''"
    "yearOf (cfgRange marchConfig) = JNum (Fin 2024)"
    "monthOf (cfgRange marchConfig) = JNum (Fin 3)"
    by (simp_all add: marchConfig_def)
  have "resolveRange newYork2024 marchConfig exampleFile =
      Inr \<lparr>rangeType = Month, startDate = ''2024-03-01'', endDate = ''2024-03-31'',
           dates = enumerateDates newYork2024 ''2024-03-01'' ''2024-03-31''\<rparr>"
    by (simp add: resolveRange_def resolveMonth_def cfg isValidYear_def Let_def march_end)
       (simp add: show_eval)
  then show ?thesis
    by (simp add: march_enumerate length_enumerateLoop last_enumerateLoop march_last)
qed

text \<open>On a host on UTC the examples of the claim come out as it says.\<close>

lemma february_2024_utc:
  "length (enumerateDates utcZone ''2024-02-01'' ''2024-02-29'') = 29"
  by (simp add: iso_eval date_eval zone_eval length_enumerateLoop del: enumerateLoop_step enumerateLoop_stop)

lemma year_2023_utc:
  "length (enumerateDates utcZone ''2023-01-01'' ''2023-12-31'') = 365"
  by (simp add: iso_eval date_eval zone_eval length_enumerateLoop del: enumerateLoop_step enumerateLoop_stop)

lemma marchWeek_seven_days_refused:
  "resolveRange newYork2024 DEFAULT_CONFIG (marchWeekFile\<lparr>basename := ''2024.03.10 - 2024.03.16''\<rparr>) =
     Inl [''week range must include exactly 7 dates, found 6'']"
proof -
  have t: "matchWeekTitle ''2024.03.10 - 2024.03.16'' = Some (''2024.03.10'', ''2024.03.16'')"
    by (simp add: title_eval iso_eval)
  have d: "normalizeIsoDate newYork2024 ''2024-03-10'' = Some ''2024-03-10''"
    by (simp add: iso_eval date_eval zone_eval)
  have e: "length (enumerateDates newYork2024 ''2024-03-10'' ''2024-03-16'') = 6"
    by (simp add: iso_eval date_eval zone_eval length_enumerateLoop
        del: enumerateLoop_step enumerateLoop_stop)
  have "resolveRange newYork2024 DEFAULT_CONFIG (marchWeekFile\<lparr>basename := ''2024.03.10 - 2024.03.16''\<rparr>) =
      (if length (enumerateDates newYork2024 ''2024-03-10'' ''2024-03-16'') \<noteq> 7
       then Inl [''week range must include exactly 7 dates, found ''
                   @ showNat (length (enumerateDates newYork2024 ''2024-03-10'' ''2024-03-16''))]
       else Inr \<lparr>rangeType = Week, startDate = ''2024-03-10'', endDate = ''2024-03-16'',
                  dates = enumerateDates newYork2024 ''2024-03-10'' ''2024-03-16''\<rparr>)"
    by (rule resolveWeek_count[where a = "''2024.03.10''" and b = "''2024.03.16''"])
       (simp_all add: DEFAULT_CONFIG_def t d marchWeek_dates headingToIso_def)
  then show ?thesis by (simp add: e show_eval)
qed

subsection \<open>Appearance\<close>

lemma firstMatch_find:
  "firstMatch ths v = map_option thresholdColor (List.find (thresholdMatches v) ths)"
proof (induction ths)
  case Nil
  then show ?case by simp
next
  case (Cons t ths)
  then show ?case by (cases t) simp_all
qed

lemma normalized_thresholds_nonempty:
  "normalizeConfig input = Inr config \<Longrightarrow> thresholds (cfgColors config) \<noteq> []"
  by (auto simp: normalizeConfig_def Let_def buildConfig_def normalizeThresholds_def
      DEFAULT_CONFIG_def split: if_splits)

text \<open>
  Claim C8. Without a value, a date that is not before today (in the order of the texts)
  gets the blank-future color, the tooltip \<open>blank (today/future missing)\<close> and the kind
  blank, and a date before today the no-data color and the tooltip \<open>no data\<close>. A boolean
  value gets the color configured for it and the tooltip \<open>true\<close> or \<open>false\<close>. A numeric
  value gets the color of the first threshold, in the configured order, that it matches,
  and the color of the last threshold when it matches none, with the text of the number as
  tooltip. (With no threshold at all, which no normalized configuration has, the color is
  #6b7280.)
\<close>

theorem C8_appearance:
  "(textLe today date \<longrightarrow>
      resolveAppearance numberText today config date None =
        \<lparr>cellColor = blankFuture (cfgColors config), tooltip = ''blank (today/future missing)'',
         cellKind = BlankCell\<rparr>) \<and>
   (\<not> textLe today date \<longrightarrow>
      resolveAppearance numberText today config date None =
        \<lparr>cellColor = noData (cfgColors config), tooltip = ''no data'', cellKind = DataCell\<rparr>) \<and>
   resolveAppearance numberText today config date (Some (Boolean True)) =
     \<lparr>cellColor = booleanTrue (cfgColors config), tooltip = ''true'', cellKind = DataCell\<rparr> \<and>
   resolveAppearance numberText today config date (Some (Boolean False)) =
     \<lparr>cellColor = booleanFalse (cfgColors config), tooltip = ''false'', cellKind = DataCell\<rparr> \<and>
   resolveAppearance numberText today config date (Some (Numeric x)) =
     \<lparr>cellColor =
        (case List.find (thresholdMatches x) (thresholds (cfgColors config)) of
           Some t \<Rightarrow> thresholdColor t
         | None \<Rightarrow> if thresholds (cfgColors config) = [] then ''#6b7280''
                   else thresholdColor (last (thresholds (cfgColors config)))),
      tooltip = numberText x, cellKind = DataCell\<rparr>"
  by (simp add: resolveAppearance_def resolveNumericColor_def firstMatch_find
      split: option.splits)

theorem C8_appearance_witness:
  "map (\<lambda>x. cellColor (resolveAppearance (\<lambda>n. ''n'') ''2026-02-12'' DEFAULT_CONFIG ''2026-02-10''
                           (Some (Numeric x))))
     [Fin (- 3), Fin 10, Fin 51, Fin 1000000, NaN] =
     [''#111827'', ''#1f2937'', ''#6b7280'', ''#6b7280'', ''#6b7280''] \<and>
   resolveAppearance (\<lambda>n. ''n'') ''2026-02-12'' DEFAULT_CONFIG ''2026-02-12'' None =
     \<lparr>cellColor = ''transparent'', tooltip = ''blank (today/future missing)'',
      cellKind = BlankCell\<rparr> \<and>
   resolveAppearance (\<lambda>n. ''n'') ''2026-02-12'' DEFAULT_CONFIG ''2026-02-11'' None =
     \<lparr>cellColor = ''#2b2b2b'', tooltip = ''no data'', cellKind = DataCell\<rparr>"
proof -
  have t1: "textLe ''2026-02-12'' ''2026-02-12''" by simp
  have t2: "\<not> textLe ''2026-02-12'' ''2026-02-11''" by simp
  have ths: "thresholds (cfgColors DEFAULT_CONFIG) =
      [Le (Fin 0) ''#111827'', Le (Fin 10) ''#1f2937'', Le (Fin 25) ''#374151'',
       Le (Fin 50) ''#4b5563'', Gt (Fin 50) ''#6b7280'']"
    "blankFuture (cfgColors DEFAULT_CONFIG) = ''transparent''"
    "noData (cfgColors DEFAULT_CONFIG) = ''#2b2b2b''"
    by (simp_all add: DEFAULT_CONFIG_def)
  show ?thesis
    using t1 t2
      C8_appearance[where today = "''2026-02-12''" and date = "''2026-02-12''"
        and config = DEFAULT_CONFIG and numberText = "\<lambda>n. ''n''"]
      C8_appearance[where today = "''2026-02-12''" and date = "''2026-02-11''"
        and config = DEFAULT_CONFIG and numberText = "\<lambda>n. ''n''"]
      C8_appearance[where today = "''2026-02-12''" and date = "''2026-02-10''"
        and config = DEFAULT_CONFIG and numberText = "\<lambda>n. ''n''"]
    by (simp add: ths)
qed

subsection \<open>The date codecs\<close>

lemma isDigit_digit:
  assumes "isDigit c"
  shows "digitChar (digitValue c) = c" and "digitValue c < 10"
    and "(digitValue c = 0) = (c = CHR ''0'')" and "c \<noteq> CHR ''-''"
  using assms by (auto simp: isDigit_def digitValue_def digitChar_def)

lemma digitsValue_snoc: "digitsValue (ds @ [c]) = 10 * digitsValue ds + digitValue c"
  by (simp add: digitsValue_def)

lemma showNat_snoc:
  assumes "0 < n" and "k < 10"
  shows "showNat (10 * n + k) = showNat n @ [digitChar k]"
proof -
  have "\<not> 10 * n + k < 10" using assms by simp
  moreover have "(10 * n + k) div 10 = n" "(10 * n + k) mod 10 = k" using assms by simp_all
  ultimately show ?thesis by (simp add: showNat_large)
qed

text \<open>The text of the number that a digit sequence without leading zero denotes is that
  sequence.\<close>

lemma showNat_digitsValue:
  "list_all isDigit ds \<Longrightarrow> ds \<noteq> [] \<Longrightarrow> hd ds \<noteq> CHR ''0'' \<Longrightarrow>
   0 < digitsValue ds \<and> showNat (digitsValue ds) = ds"
proof (induction ds rule: rev_induct)
  case Nil
  then show ?case by simp
next
  case (snoc c ds)
  from snoc.prems have c: "isDigit c" and ds: "list_all isDigit ds" by simp_all
  show ?case
  proof (cases "ds = []")
    case True
    with snoc.prems have "c \<noteq> CHR ''0''" by simp
    with c have "0 < digitValue c" using isDigit_digit(3)[OF c] by simp
    moreover have "showNat (digitValue c) = [c]"
      using isDigit_digit(1,2)[OF c] by (simp add: showNat_small)
    ultimately show ?thesis using True by (simp add: digitsValue_def)
  next
    case False
    with snoc.prems have "hd ds \<noteq> CHR ''0''" by simp
    with snoc.IH ds False have ih: "0 < digitsValue ds" "showNat (digitsValue ds) = ds"
      by simp_all
    show ?thesis
      using ih isDigit_digit(1,2)[OF c] by (simp add: digitsValue_snoc showNat_snoc)
  qed
qed

lemma padStart2_two_digits:
  assumes "isDigit a" and "isDigit b"
  shows "padStart2 (showNat (digitsValue [a, b])) = [a, b]"
proof (cases "a = CHR ''0''")
  case True
  have "digitsValue [a, b] = digitValue b"
    using True by (simp add: digitsValue_def digitValue_def)
  then show ?thesis
    using True isDigit_digit(1,2)[OF assms(2)] by (simp add: showNat_small padStart2_def)
next
  case False
  have "showNat (digitsValue [a, b]) = [a, b]"
    using showNat_digitsValue[of "[a, b]"] assms False by simp
  then show ?thesis by (simp add: padStart2_def)
qed

text \<open>The shape of a text that passes the test of the date pattern.\<close>

lemma isDateToken_shape:
  assumes "isDateToken sep s"
  obtains y1 y2 y3 y4 m1 m2 d1 d2 where
    "s = [y1, y2, y3, y4] @ sep # [m1, m2] @ sep # [d1, d2]"
    "list_all isDigit [y1, y2, y3, y4]" "isDigit m1" "isDigit m2" "isDigit d1" "isDigit d2"
proof -
  from assms have len: "length s = 10" by (simp add: isDateToken_def)
  then obtain c0 c1 c2 c3 c4 c5 c6 c7 c8 c9 where s: "s = [c0, c1, c2, c3, c4, c5, c6, c7, c8, c9]"
    by (auto simp: length_Suc_conv eval_nat_numeral)
  from assms s show ?thesis
    by (intro that[of c0 c1 c2 c3 c5 c6 c8 c9]) (simp_all add: isDateToken_def)
qed

lemma normalizeIsoDate_Some:
  assumes "normalizeIsoDate tz s = Some r"
  obtains y m d where
    "s = y @ CHR ''-'' # m @ CHR ''-'' # d" "r = s" "splitOn CHR ''-'' s = [y, m, d]"
    "length y = 4" "list_all isDigit y"
    "\<exists>a b. m = [a, b] \<and> isDigit a \<and> isDigit b"
    "\<exists>a b. d = [a, b] \<and> isDigit a \<and> isDigit b"
    "getFullYear tz (newDate tz (int (digitsValue y)) (int (digitsValue m) - 1)
       (int (digitsValue d))) = int (digitsValue y)"
    "getMonth tz (newDate tz (int (digitsValue y)) (int (digitsValue m) - 1)
       (int (digitsValue d))) = int (digitsValue m) - 1"
    "getDate tz (newDate tz (int (digitsValue y)) (int (digitsValue m) - 1)
       (int (digitsValue d))) = int (digitsValue d)"
proof -
  from assms have tok: "isDateToken CHR ''-'' s"
    by (simp add: normalizeIsoDate_def split: if_splits)
  then obtain y1 y2 y3 y4 m1 m2 d1 d2 where
    s: "s = [y1, y2, y3, y4] @ CHR ''-'' # [m1, m2] @ CHR ''-'' # [d1, d2]"
    and dy: "list_all isDigit [y1, y2, y3, y4]"
    and dm: "isDigit m1" "isDigit m2" and dd: "isDigit d1" "isDigit d2"
    by (rule isDateToken_shape)
  have split: "splitOn CHR ''-'' s = [[y1, y2, y3, y4], [m1, m2], [d1, d2]]"
    unfolding s using dy dm dd by (simp add: isDigit_digit(4))
  from assms tok split have
    "getFullYear tz (newDate tz (int (digitsValue [y1, y2, y3, y4]))
        (int (digitsValue [m1, m2]) - 1) (int (digitsValue [d1, d2])))
       = int (digitsValue [y1, y2, y3, y4])
     \<and> getMonth tz (newDate tz (int (digitsValue [y1, y2, y3, y4]))
        (int (digitsValue [m1, m2]) - 1) (int (digitsValue [d1, d2])))
       = int (digitsValue [m1, m2]) - 1
     \<and> getDate tz (newDate tz (int (digitsValue [y1, y2, y3, y4]))
        (int (digitsValue [m1, m2]) - 1) (int (digitsValue [d1, d2])))
       = int (digitsValue [d1, d2])
     \<and> r = s"
    by (simp add: normalizeIsoDate_def Let_def s split: if_splits)
  then show ?thesis
    using dy dm dd s split
    by (intro that[of "[y1, y2, y3, y4]" "[m1, m2]" "[d1, d2]"]) simp_all
qed

text \<open>What \<open>normalizeIsoDate\<close> accepts it returns unchanged, on every host.\<close>

lemma normalizeIsoDate_identity: "normalizeIsoDate tz s = Some r \<Longrightarrow> r = s"
  by (erule normalizeIsoDate_Some)

text \<open>
  The text of the parsed date: the number of the year without its leading zeros, and the
  month and the day as they were written.
\<close>

lemma toIsoDate_parseIsoDate:
  assumes "normalizeIsoDate tz s = Some r"
  shows "map_option (toIsoDate tz) (parseIsoDate tz s) =
           Some (showNat (digitsValue (take 4 s)) @ drop 4 s)"
proof -
  from assms obtain y m d where
    s: "s = y @ CHR ''-'' # m @ CHR ''-'' # d" and r: "r = s"
    and split: "splitOn CHR ''-'' s = [y, m, d]"
    and y: "length y = 4" "list_all isDigit y"
    and m: "\<exists>a b. m = [a, b] \<and> isDigit a \<and> isDigit b"
    and d: "\<exists>a b. d = [a, b] \<and> isDigit a \<and> isDigit b"
    and fields:
      "getFullYear tz (newDate tz (int (digitsValue y)) (int (digitsValue m) - 1)
         (int (digitsValue d))) = int (digitsValue y)"
      "getMonth tz (newDate tz (int (digitsValue y)) (int (digitsValue m) - 1)
         (int (digitsValue d))) = int (digitsValue m) - 1"
      "getDate tz (newDate tz (int (digitsValue y)) (int (digitsValue m) - 1)
         (int (digitsValue d))) = int (digitsValue d)"
    by (rule normalizeIsoDate_Some)
  from m obtain m1 m2 where m': "m = [m1, m2]" "isDigit m1" "isDigit m2" by blast
  from d obtain d1 d2 where d': "d = [d1, d2]" "isDigit d1" "isDigit d2" by blast
  have parse: "parseIsoDate tz s =
      Some (newDate tz (int (digitsValue y)) (int (digitsValue m) - 1) (int (digitsValue d)))"
    using assms r split by (simp add: parseIsoDate_def)
  have showInt: "\<And>n. showInt (int n) = showNat n"
    by (simp add: showInt_def)
  have month: "padStart2 (showNat (digitsValue m)) = m"
    unfolding m'(1) using m'(2,3) by (rule padStart2_two_digits)
  have day: "padStart2 (showNat (digitsValue d)) = d"
    unfolding d'(1) using d'(2,3) by (rule padStart2_two_digits)
  have "toIsoDate tz (newDate tz (int (digitsValue y)) (int (digitsValue m) - 1)
          (int (digitsValue d))) = showNat (digitsValue y) @ CHR ''-'' # m @ CHR ''-'' # d"
    unfolding toIsoDate_def fields by (simp add: showInt month day)
  moreover have "take 4 s = y" "drop 4 s = CHR ''-'' # m @ CHR ''-'' # d"
    using y(1) by (simp_all add: s)
  ultimately show ?thesis
    using parse by simp
qed

text \<open>
  So for a year written without a leading zero (the years from 1000 on) parsing a date
  and writing it again gives the text back, on every host.
\<close>

lemma roundtrip_from_year_1000:
  assumes "normalizeIsoDate tz s = Some r" and "hd s \<noteq> CHR ''0''"
  shows "map_option (toIsoDate tz) (parseIsoDate tz s) = Some s"
proof -
  from assms(1) obtain y m d where
    s: "s = y @ CHR ''-'' # m @ CHR ''-'' # d"
    and y: "length y = 4" "list_all isDigit y"
    by (rule normalizeIsoDate_Some)
  from y(1) have ne: "y \<noteq> []" by auto
  have "y @ drop 4 s = s" using y(1) by (simp add: s)
  moreover have "take 4 s = y" using y(1) by (simp add: s)
  moreover have "hd y \<noteq> CHR ''0''" using assms(2) ne by (simp add: s)
  then have "showNat (digitsValue y) = y"
    using showNat_digitsValue[OF y(2) ne] by simp
  ultimately show ?thesis
    using toIsoDate_parseIsoDate[OF assms(1)] by simp
qed


text \<open>The date 0123-05-06 on a host on UTC.\<close>

lemmas date_eval_neg =
  getDate_def[of _ "- numeral k"] getMonth_def[of _ "- numeral k"]
  getFullYear_def[of _ "- numeral k"] localTime_def[of _ "- numeral k"]
  DateFromTime_def[of "- numeral k"] Day_def[of "- numeral k"]
  YearFromTime_def[of "- numeral k"] YearFromDay_def[of "- numeral k"]
  MonthFromTime_def[of "- numeral k"]
  for k

lemma year123_date: "newDate utcZone 123 4 6 = - 58274899200000"
  by (simp add: date_eval zone_eval)

lemma year123_fields:
  "getFullYear utcZone (- 58274899200000) = 123"
  "getMonth utcZone (- 58274899200000) = 4"
  "getDate utcZone (- 58274899200000) = 6"
  by (simp_all add: date_eval date_eval_neg zone_eval)

lemma year123_normalize: "normalizeIsoDate utcZone ''0123-05-06'' = Some ''0123-05-06''"
  by (simp add: iso_eval year123_date year123_fields)

lemma year123_parse: "parseIsoDate utcZone ''0123-05-06'' = Some (- 58274899200000)"
  by (simp add: parseIsoDate_def year123_normalize digitsValue_def digitValue_def year123_date)

lemma year123_text: "toIsoDate utcZone (- 58274899200000) = ''123-05-06''"
  by (simp add: toIsoDate_def year123_fields show_eval)

text \<open>On whatever host accepts the date, the text written for it has the year 123.\<close>

lemma year123_every_host:
  assumes "normalizeIsoDate tz ''0123-05-06'' = Some r"
  shows "map_option (toIsoDate tz) (parseIsoDate tz ''0123-05-06'') = Some ''123-05-06''"
proof -
  have "showNat (digitsValue ''0123'') = ''123''"
    by (simp add: digitsValue_def digitValue_def show_eval)
  then show ?thesis
    using toIsoDate_parseIsoDate[OF assms] by simp
qed

text \<open>
  Claim C10 at the date 0123-05-06. \<open>normalizeIsoDate\<close> accepts the text and returns it as it
  is, as the claim says of every accepted text (lemma \<open>normalizeIsoDate_identity\<close>). But
  parsing it and writing the date again gives 123-05-06, not the text itself: \<open>toIsoDate\<close>
  pads the month and the day to two digits and writes the year without padding, so the
  round trip holds from the year 1000 on (lemma \<open>roundtrip_from_year_1000\<close>) and loses the
  leading zeros of an earlier year.
\<close>

theorem C10_year_not_padded:
  "normalizeIsoDate utcZone ''0123-05-06'' = Some ''0123-05-06'' \<and>
   map_option (toIsoDate utcZone) (parseIsoDate utcZone ''0123-05-06'') = Some ''123-05-06''"
  by (simp add: year123_normalize year123_parse year123_text)

text \<open>
  The date passes the test of the pattern and the test of the fields of the constructed
  date, so it is an accepted date that does not come back.
\<close>

theorem C10_year_not_padded_witness:
  "isDateToken CHR ''-'' ''0123-05-06'' \<and>
   getFullYear utcZone (newDate utcZone 123 4 6) = 123 \<and>
   getMonth utcZone (newDate utcZone 123 4 6) = 4 \<and>
   getDate utcZone (newDate utcZone 123 4 6) = 6 \<and>
   map_option (toIsoDate utcZone) (parseIsoDate utcZone ''0123-05-06'') \<noteq>
     normalizeIsoDate utcZone ''0123-05-06''"
proof -
  have "map_option (toIsoDate utcZone) (parseIsoDate utcZone ''0123-05-06'') \<noteq>
      normalizeIsoDate utcZone ''0123-05-06''"
    by (simp only: C10_year_not_padded) simp
  then show ?thesis
    by (simp add: isDateToken_def isDigit_def year123_date year123_fields)
qed

subsection \<open>The year of a day\<close>

text \<open>
  The search for the year of a day starts at a year that is not after it and so ends at
  the year whose days include the day, as the language standard defines the year of a
  time value.
\<close>

lemma leap_days_bound:
  fixes k :: int
  shows "0 \<le> k \<Longrightarrow> (k + 1) div 4 - (k + 69) div 100 + (k + 369) div 400 \<le> k"
    and "k < 0 \<Longrightarrow> (k + 1) div 4 - (k + 69) div 100 + (k + 369) div 400 \<le> 0"
proof -
  define a where "a = (k + 1) div 4"
  define b where "b = (k + 69) div 100"
  define c where "c = (k + 369) div 400"
  have a: "4 * a \<le> k + 1"
    unfolding a_def using mult_div_mod_eq[of 4 "k + 1"] pos_mod_sign[of 4 "k + 1"] by linarith
  have b: "k - 30 \<le> 100 * b"
    unfolding b_def using mult_div_mod_eq[of 100 "k + 69"] pos_mod_bound[of 100 "k + 69"]
    by linarith
  have c: "400 * c \<le> k + 369"
    unfolding c_def using mult_div_mod_eq[of 400 "k + 369"] pos_mod_sign[of 400 "k + 369"]
    by linarith
  have bound: "400 * a - 400 * b + 400 * c \<le> 97 * k + 589"
    using a b c by simp
  show "a - b + c \<le> k" if "0 \<le> k"
  proof (cases "2 \<le> k")
    case True
    with bound show ?thesis by linarith
  next
    case False
    with that have "k = 0 \<or> k = 1" by linarith
    then show ?thesis by (auto simp: a_def b_def c_def)
  qed
  show "a - b + c \<le> 0" if "k < 0"
  proof (cases "k \<le> - 7")
    case True
    with bound show ?thesis by linarith
  next
    case False
    with that have "k = - 1 \<or> k = - 2 \<or> k = - 3 \<or> k = - 4 \<or> k = - 5 \<or> k = - 6"
      by linarith
    then show ?thesis by (auto simp: a_def b_def c_def)
  qed
qed

lemma DayFromYear_guess:
  "DayFromYear (1970 + (if 0 \<le> day then day div 366 else day div 365)) \<le> day"
proof (cases "0 \<le> day")
  case True
  define k where "k = day div 366"
  have k: "0 \<le> k" "366 * k \<le> day"
    unfolding k_def using True mult_div_mod_eq[of 366 day] pos_mod_sign[of 366 day]
    by (simp_all add: pos_imp_zdiv_nonneg_iff)
  have "DayFromYear (1970 + k) = 365 * k + ((k + 1) div 4 - (k + 69) div 100 + (k + 369) div 400)"
    by (simp add: DayFromYear_def algebra_simps)
  with leap_days_bound(1)[OF k(1)] k(2) have "DayFromYear (1970 + k) \<le> day" by linarith
  with True show ?thesis by (simp add: k_def)
next
  case False
  define k where "k = day div 365"
  have k: "k < 0" "365 * k \<le> day"
    unfolding k_def using False mult_div_mod_eq[of 365 day] pos_mod_sign[of 365 day]
    by (simp_all add: div_neg_pos_less0)
  have "DayFromYear (1970 + k) = 365 * k + ((k + 1) div 4 - (k + 69) div 100 + (k + 369) div 400)"
    by (simp add: DayFromYear_def algebra_simps)
  with leap_days_bound(2)[OF k(1)] k(2) have "DayFromYear (1970 + k) \<le> day" by linarith
  with False show ?thesis by (simp add: k_def)
qed

lemma yearSearch_bounds:
  "DayFromYear y \<le> day \<Longrightarrow>
   DayFromYear (yearSearch day y) \<le> day \<and> day < DayFromYear (yearSearch day y + 1)"
proof (induction day y rule: yearSearch.induct)
  case (1 day y)
  show ?case
  proof (cases "DayFromYear (y + 1) \<le> day")
    case True
    with 1 show ?thesis by (simp add: yearSearch_step)
  next
    case False
    with 1 show ?thesis by (simp add: yearSearch_stop)
  qed
qed

text \<open>The year of a day is the year whose days include it.\<close>

lemma YearFromDay_bounds:
  "DayFromYear (YearFromDay day) \<le> day \<and> day < DayFromYear (YearFromDay day + 1)"
  unfolding YearFromDay_def by (rule yearSearch_bounds) (rule DayFromYear_guess)

end
